theory Spec2Isabelle
  imports Complex_Main "HOL-Library.Char_ord" "HOL-Library.List_Lexorder" "HOL-Library.Multiset"
begin

section \<open>Backend answers and errors\<close>

text \<open>
  The persistent store, the embedding generator and the upstream provider are external
  collaborators. A point read written \<^verbatim>\<open>...single().execute()\<close> either raises, answers
  with no data, or answers with one row; the source handles the three cases separately
  (\<^verbatim>\<open>except\<close>, \<^verbatim>\<open>if result.data\<close>) and so does the model.
\<close>

datatype 'a read = Raises | NoData | Data 'a

text \<open>A dictionary key that may be absent, present with \<^verbatim>\<open>null\<close>, or present with a value.\<close>

datatype 'a field = Missing | Null | Present 'a

text \<open>The JSON values a plan's \<^verbatim>\<open>features\<close> object may hold.\<close>

datatype json_value = JNull | JBool bool | JNum int | JStr string

text \<open>
  \<^verbatim>\<open>HTTPException(status_code, detail)\<close>. The detail is a string or one of the
  dictionaries the source builds.
\<close>

datatype detail =
    Message string
  | UsageDetail string int "int option" string
  | FeatureDetail string string string
  | PlanDetail string string string string

datatype error =
    HTTPException nat detail
  | AttributeError
  | TypeError
  | BackendError
  | EmbeddingError
  | UpstreamError
  | NotImplementedError

section \<open>Subscription plans (\<^verbatim>\<open>app/services/subscription_service.py\<close>)\<close>

text \<open>
  A plan row is a dictionary; \<^verbatim>\<open>plan.get(key)\<close> answers \<^verbatim>\<open>None\<close> for a missing key
  and for a \<^verbatim>\<open>null\<close> column alike, so each such column is an option. The name is
  read with a default, \<^verbatim>\<open>plan.get("name", "free")\<close>, which only replaces a missing
  key: a \<^verbatim>\<open>null\<close> name is answered as \<^verbatim>\<open>None\<close>, so the three cases are kept apart.
\<close>

record plan =
  name :: "string field"
  monthly_requests :: "int option"
  similarity_threshold_custom :: "bool option"
  advanced_analytics :: "bool option"
  priority_support :: "bool option"
  sso_integration :: "bool option"
  white_label :: "bool option"
  ab_testing :: "bool option"
  webhooks :: "bool option"
  features :: "(string \<times> json_value) list field"

record subscription =
  status :: "string option"
  subscription_plans :: "plan field"

text \<open>The empty dictionary \<^verbatim>\<open>{}\<close> used as a default by \<^verbatim>\<open>subscription.get\<close>.\<close>

definition empty_plan :: plan where
  "empty_plan = \<lparr> name = Missing, monthly_requests = None,
     similarity_threshold_custom = None, advanced_analytics = None,
     priority_support = None, sso_integration = None, white_label = None,
     ab_testing = None, webhooks = None, features = Missing \<rparr>"

text \<open>
  The answers of the store during one call of the subscription service: the joined
  subscription read, the two reads and the insert of \<^verbatim>\<open>assign_free_plan\<close>, the
  current-month usage read (its \<^verbatim>\<open>requests_used\<close> column) and the
  \<^verbatim>\<open>user_features\<close> read (its \<^verbatim>\<open>enabled\<close> column).
\<close>

record sub_env =
  sub_read :: "subscription read"
  free_plan_read :: "plan read"
  existing_read :: "subscription read"
  insert_sub :: "subscription option"
  usage_read :: "int read"
  feature_read :: "bool read"

text \<open>The minimal free plan returned when \<^verbatim>\<open>assign_free_plan\<close> fails.\<close>

definition fallback_subscription :: subscription where
  "fallback_subscription = \<lparr> status = Some ''active'',
     subscription_plans = Present (empty_plan \<lparr> name := Present ''free'',
                                                monthly_requests := Some 1000 \<rparr>) \<rparr>"

definition assign_free_plan :: "sub_env \<Rightarrow> subscription" where
  "assign_free_plan env =
     (case free_plan_read env of
        Raises \<Rightarrow> fallback_subscription
      | NoData \<Rightarrow> fallback_subscription
      | Data free_plan \<Rightarrow>
          (case existing_read env of
             Raises \<Rightarrow> fallback_subscription
           | Data existing \<Rightarrow> existing
           | NoData \<Rightarrow>
               (case insert_sub env of
                  None \<Rightarrow> fallback_subscription
                | Some row \<Rightarrow> row \<lparr> subscription_plans := Present free_plan \<rparr>)))"

definition get_user_subscription :: "sub_env \<Rightarrow> subscription" where
  "get_user_subscription env =
     (case sub_read env of
        Data d \<Rightarrow> d
      | NoData \<Rightarrow> assign_free_plan env
      | Raises \<Rightarrow> assign_free_plan env)"

text \<open>
  \<^verbatim>\<open>subscription.get("subscription_plans", {})\<close>: the default only replaces a missing
  key. A \<^verbatim>\<open>null\<close> value is returned as \<^verbatim>\<open>None\<close>, and the next \<^verbatim>\<open>plan.get\<close> raises
  \<^verbatim>\<open>AttributeError\<close>.
\<close>

definition plan_of :: "subscription \<Rightarrow> error + plan" where
  "plan_of s =
     (case subscription_plans s of
        Missing \<Rightarrow> Inr empty_plan
      | Null \<Rightarrow> Inl AttributeError
      | Present p \<Rightarrow> Inr p)"

record usage_status =
  within_limits :: bool
  current_usage :: int
  monthly_limit :: "int option"
  overage :: int
  plan_name :: "string option"

definition check_usage_limits :: "sub_env \<Rightarrow> usage_status" where
  "check_usage_limits env =
     (let on_error = \<lparr> within_limits = True, current_usage = 0,
                        monthly_limit = Some 1000, overage = 0, plan_name = Some ''free'' \<rparr>
      in case plan_of (get_user_subscription env) of
           Inl e \<Rightarrow> on_error
         | Inr p \<Rightarrow>
             (case usage_read env of
                Raises \<Rightarrow> on_error
              | r \<Rightarrow>
                  (let cur = (case r of Data n \<Rightarrow> n | _ \<Rightarrow> 0);
                       lim = monthly_requests p
                   in \<lparr> within_limits = (case lim of None \<Rightarrow> True | Some q \<Rightarrow> cur < q),
                        current_usage = cur,
                        monthly_limit = lim,
                        overage = (case lim of
                                     None \<Rightarrow> 0
                                   | Some q \<Rightarrow> if q = 0 then 0 else max 0 (cur - q)),
                        plan_name = (case name p of
                                       Missing \<Rightarrow> Some ''free''
                                     | Null \<Rightarrow> None
                                     | Present n \<Rightarrow> Some n) \<rparr>)))"

section \<open>Feature gates (\<^verbatim>\<open>app/utils/feature_gates.py\<close>)\<close>

record usage_gate =
  allow :: bool
  gate_overage :: bool
  overage_amount :: "int option"

definition check_usage_limit :: "sub_env \<Rightarrow> error + usage_gate" where
  "check_usage_limit env =
     (let usage_status = check_usage_limits env
      in if \<not> within_limits usage_status then
           (if plan_name usage_status = Some ''free'' then
              Inl (HTTPException 429
                     (UsageDetail ''Monthly limit exceeded'' (current_usage usage_status)
                        (monthly_limit usage_status) ''/pricing''))
            else
              Inr \<lparr> allow = True, gate_overage = True,
                    overage_amount = Some (overage usage_status) \<rparr>)
         else Inr \<lparr> allow = True, gate_overage = False, overage_amount = None \<rparr>)"

text \<open>
  \<^verbatim>\<open>plan.get(flag, False)\<close> is used as a condition by the callers: a missing or
  \<^verbatim>\<open>null\<close> flag is falsy.
\<close>

definition truthy :: "bool option \<Rightarrow> bool" where
  "truthy b = (case b of Some True \<Rightarrow> True | _ \<Rightarrow> False)"

text \<open>
  The body of \<^verbatim>\<open>has_feature\<close> inside its \<^verbatim>\<open>try\<close>: the built-in plan flags, then
  the JSON \<^verbatim>\<open>features\<close> object (a \<^verbatim>\<open>null\<close> object makes \<^verbatim>\<open>in\<close> raise
  \<^verbatim>\<open>TypeError\<close>), then the user-level flag.
\<close>

definition has_feature_body :: "sub_env \<Rightarrow> string \<Rightarrow> error + bool" where
  "has_feature_body env feature_name =
     (case plan_of (get_user_subscription env) of
        Inl e \<Rightarrow> Inl e
      | Inr p \<Rightarrow>
          if feature_name = ''custom_similarity'' then Inr (truthy (similarity_threshold_custom p))
          else if feature_name = ''advanced_analytics'' then Inr (truthy (advanced_analytics p))
          else if feature_name = ''priority_support'' then Inr (truthy (priority_support p))
          else if feature_name = ''sso'' then Inr (truthy (sso_integration p))
          else if feature_name = ''white_label'' then Inr (truthy (white_label p))
          else if feature_name = ''ab_testing'' then Inr (truthy (ab_testing p))
          else if feature_name = ''webhooks'' then Inr (truthy (webhooks p))
          else
            (case features p of
               Null \<Rightarrow> Inl TypeError
             | fs \<Rightarrow>
                 (case map_of (case fs of Present d \<Rightarrow> d | _ \<Rightarrow> []) feature_name of
                    Some v \<Rightarrow> Inr (v \<noteq> JBool False)
                  | None \<Rightarrow>
                      (case feature_read env of
                         Raises \<Rightarrow> Inl BackendError
                       | NoData \<Rightarrow> Inr False
                       | Data enabled \<Rightarrow> Inr enabled))))"

text \<open>\<^verbatim>\<open>except Exception: return False\<close>.\<close>

definition has_feature :: "sub_env \<Rightarrow> string \<Rightarrow> bool" where
  "has_feature env feature_name =
     (case has_feature_body env feature_name of Inl e \<Rightarrow> False | Inr b \<Rightarrow> b)"

section \<open>Admission middleware (\<^verbatim>\<open>app/middleware/usage_middleware.py\<close>)\<close>

text \<open>
  What a middleware answers: it forwards the request (\<^verbatim>\<open>await call_next(request)\<close>) or
  answers itself with a \<^verbatim>\<open>JSONResponse\<close> (status, code string, headers).
\<close>

datatype response = Forwarded | JSONResponse nat string "(string \<times> string) list"

definition feature_requirements :: "(string \<times> string) list" where
  "feature_requirements =
     [(''/api/analytics/advanced'', ''advanced_analytics''),
      (''/api/models/custom'', ''custom_models''),
      (''/api/teams'', ''team_collaboration''),
      (''/api/cache/advanced'', ''advanced_caching'')]"

text \<open>\<^verbatim>\<open>path.startswith(pattern)\<close>.\<close>

definition startswith :: "string \<Rightarrow> string \<Rightarrow> bool" where
  "startswith s p = (take (length p) s = p)"

fun required_feature :: "(string \<times> string) list \<Rightarrow> string \<Rightarrow> string option" where
  "required_feature [] path = None"
| "required_feature ((pattern, feature) # rest) path =
     (if startswith path pattern then Some feature else required_feature rest path)"

text \<open>
  \<^verbatim>\<open>FeatureGateMiddleware.dispatch\<close>; \<open>user\<close> is what \<^verbatim>\<open>_get_user_info\<close> found.
  \<^verbatim>\<open>has_feature\<close> never raises, so the handler of the \<^verbatim>\<open>try\<close> is not reached.
\<close>

definition feature_gate_dispatch :: "sub_env \<Rightarrow> string option \<Rightarrow> string \<Rightarrow> response" where
  "feature_gate_dispatch env user path =
     (case required_feature feature_requirements path of
        None \<Rightarrow> Forwarded
      | Some feature \<Rightarrow>
          (case user of
             None \<Rightarrow> JSONResponse 401 ''Authentication required'' []
           | Some user_id \<Rightarrow>
               if \<not> has_feature env feature
               then JSONResponse 403 ''FEATURE_NOT_AVAILABLE'' []
               else Forwarded))"

subsection \<open>Rate limiting\<close>

definition rate_limits :: "(string \<times> int) list" where
  "rate_limits = [(''free'', 10), (''startup'', 100), (''business'', 500), (''enterprise'', -1)]"

text \<open>\<^verbatim>\<open>self.rate_limits.get(plan_name, 10)\<close>.\<close>

definition rate_limit_of :: "string \<Rightarrow> int" where
  "rate_limit_of pname = (case map_of rate_limits pname of Some n \<Rightarrow> n | None \<Rightarrow> 10)"

text \<open>
  The in-process counter table \<^verbatim>\<open>request_counts\<close>. Its keys are the strings
  \<^verbatim>\<open>f"{user_id}:{current_minute}"\<close>; user ids are UUID strings, which hold no colon, so
  \<^verbatim>\<open>k.split(":")[1]\<close> is the minute of the key and a key is modelled as the pair.
\<close>

type_synonym request_counts = "string \<times> int \<rightharpoonup> int"

text \<open>\<^verbatim>\<open>int(time.time() // 60)\<close>.\<close>

definition current_minute_of :: "real \<Rightarrow> int" where
  "current_minute_of now = \<lfloor>now / 60\<rfloor>"

text \<open>
  The body of \<^verbatim>\<open>_check_rate_limit\<close>, given the outcome of
  \<^verbatim>\<open>await subscription_service.get_subscription_details(user_id)\<close>: an exception,
  \<^verbatim>\<open>None\<close>, or details whose \<^verbatim>\<open>plan.name\<close> is given.
\<close>

definition check_rate_limit_body ::
  "(error + string option) \<Rightarrow> string \<Rightarrow> real \<Rightarrow> request_counts \<Rightarrow> bool \<times> request_counts" where
  "check_rate_limit_body details user_id now request_counts =
     (case details of
        Inl e \<Rightarrow> (True, request_counts)
      | Inr None \<Rightarrow> (True, request_counts)
      | Inr (Some pname) \<Rightarrow>
          (let rate_limit = rate_limit_of pname
           in if rate_limit = -1 then (True, request_counts)
              else
                (let current_minute = current_minute_of now;
                     key = (user_id, current_minute);
                     current_count = (case request_counts key of Some c \<Rightarrow> c | None \<Rightarrow> 0)
                 in if current_count \<ge> rate_limit then (False, request_counts)
                    else
                      (let counts' = request_counts(key \<mapsto> current_count + 1)
                       in (True, (\<lambda>k. if snd k < current_minute - 1 then None else counts' k))))))"

text \<open>
  The methods class \<^verbatim>\<open>SubscriptionService\<close> defines. There is no
  \<^verbatim>\<open>get_subscription_details\<close> among them and the class has no \<^verbatim>\<open>__getattr__\<close>, so
  evaluating \<^verbatim>\<open>subscription_service.get_subscription_details\<close> raises
  \<^verbatim>\<open>AttributeError\<close>.
\<close>

definition subscription_service_methods :: "string list" where
  "subscription_service_methods =
     [''get_user_subscription'', ''assign_free_plan'', ''check_usage_limits'',
      ''increment_usage'', ''can_create_api_key'', ''has_feature'', ''upgrade_plan'',
      ''get_usage_history'']"

definition getattr_subscription_service :: "string \<Rightarrow> error + string" where
  "getattr_subscription_service attr =
     (if attr \<in> set subscription_service_methods then Inr attr else Inl AttributeError)"

definition get_subscription_details :: "string \<Rightarrow> error + string option" where
  "get_subscription_details user_id =
     (case getattr_subscription_service ''get_subscription_details'' of
        Inl e \<Rightarrow> Inl e
      | Inr m \<Rightarrow> Inr None)"

definition check_rate_limit :: "string \<Rightarrow> real \<Rightarrow> request_counts \<Rightarrow> bool \<times> request_counts" where
  "check_rate_limit user_id now request_counts =
     check_rate_limit_body (get_subscription_details user_id) user_id now request_counts"

text \<open>
  \<^verbatim>\<open>RateLimitMiddleware.dispatch\<close> for a path under \<^verbatim>\<open>/api/\<close> that is not excluded,
  parameterised by the rate check it calls.
\<close>

definition rate_limit_dispatch_with ::
  "(string \<Rightarrow> real \<Rightarrow> request_counts \<Rightarrow> bool \<times> request_counts) \<Rightarrow>
   string option \<Rightarrow> real \<Rightarrow> request_counts \<Rightarrow> response \<times> request_counts" where
  "rate_limit_dispatch_with check user now request_counts =
     (case user of
        None \<Rightarrow> (Forwarded, request_counts)
      | Some user_id \<Rightarrow>
          (let (can_proceed, counts') = check user_id now request_counts
           in if \<not> can_proceed
              then (JSONResponse 429 ''RATE_LIMIT_EXCEEDED'' [(''Retry-After'', ''60'')], counts')
              else (Forwarded, counts')))"

definition rate_limit_dispatch ::
  "string option \<Rightarrow> real \<Rightarrow> request_counts \<Rightarrow> response \<times> request_counts" where
  "rate_limit_dispatch = rate_limit_dispatch_with check_rate_limit"

text \<open>A run of checks by one user at the given times, threading the counter table.\<close>

fun run_checks ::
  "(string \<Rightarrow> real \<Rightarrow> request_counts \<Rightarrow> bool \<times> request_counts) \<Rightarrow>
   string \<Rightarrow> real list \<Rightarrow> request_counts \<Rightarrow> bool list \<times> request_counts" where
  "run_checks check user_id [] counts = ([], counts)"
| "run_checks check user_id (t # ts) counts =
     (let (ok, counts') = check user_id t counts;
          (oks, counts'') = run_checks check user_id ts counts'
      in (ok # oks, counts''))"

text \<open>\<^verbatim>\<open>self.request_counts.get(key, 0)\<close>.\<close>

definition count_of :: "request_counts \<Rightarrow> string \<times> int \<Rightarrow> int" where
  "count_of c key = (case c key of Some x \<Rightarrow> x | None \<Rightarrow> 0)"

section \<open>Request canonicalisation (\<^verbatim>\<open>CacheService.generate_query_hash\<close>)\<close>

text \<open>
  A message is a \<^verbatim>\<open>Dict[str, str]\<close>: its items in insertion order, with distinct keys.
  Strings are modelled over the code points below 256. \<^verbatim>\<open>json.dumps\<close> runs with its
  defaults (\<^verbatim>\<open>ensure_ascii=True\<close>, separators \<^verbatim>\<open>", "\<close> and \<^verbatim>\<open>": "\<close>), so its
  output is ASCII and \<^verbatim>\<open>.encode()\<close> changes nothing.
\<close>

type_synonym message = "(string \<times> string) list"

definition hexdigit :: "nat \<Rightarrow> char" where
  "hexdigit n = ''0123456789abcdef'' ! (n mod 16)"

definition escape_char :: "char \<Rightarrow> string" where
  "escape_char c =
     (let n = of_char c :: nat
      in if n = 0x22 then [CHR 0x5C, CHR 0x22]
         else if n = 0x5C then [CHR 0x5C, CHR 0x5C]
         else if n = 0x0A then [CHR 0x5C, CHR ''n'']
         else if n = 0x0D then [CHR 0x5C, CHR ''r'']
         else if n = 0x09 then [CHR 0x5C, CHR ''t'']
         else if n = 0x08 then [CHR 0x5C, CHR ''b'']
         else if n = 0x0C then [CHR 0x5C, CHR ''f'']
         else if 0x20 \<le> n \<and> n \<le> 0x7E then [c]
         else [CHR 0x5C, CHR ''u'', CHR ''0'', CHR ''0'', hexdigit (n div 16), hexdigit n])"

definition dumps_str :: "string \<Rightarrow> string" where
  "dumps_str s = [CHR 0x22] @ concat (map escape_char s) @ [CHR 0x22]"

text \<open>\<^verbatim>\<open>sep.join(parts)\<close>.\<close>

fun join :: "string \<Rightarrow> string list \<Rightarrow> string" where
  "join sep [] = []"
| "join sep [x] = x"
| "join sep (x # y # ys) = x @ sep @ join sep (y # ys)"

definition dumps_item :: "string \<times> string \<Rightarrow> string" where
  "dumps_item kv = dumps_str (fst kv) @ '': '' @ dumps_str (snd kv)"

definition dumps_message :: "bool \<Rightarrow> message \<Rightarrow> string" where
  "dumps_message sort_keys m =
     ''{'' @ join '', '' (map dumps_item (if sort_keys then sort_key fst m else m)) @ ''}''"

definition dumps_messages :: "bool \<Rightarrow> message list \<Rightarrow> string" where
  "dumps_messages sort_keys ms = ''['' @ join '', '' (map (dumps_message sort_keys) ms) @ '']''"

text \<open>
  \<^verbatim>\<open>json.dumps({"messages": messages, "model": model}, sort_keys=True)\<close>: the two outer
  keys are already in sorted order.
\<close>

definition query_string :: "message list \<Rightarrow> string \<Rightarrow> string" where
  "query_string messages model =
     ''{'' @ join '', '' [dumps_str ''messages'' @ '': '' @ dumps_messages True messages,
                        dumps_str ''model'' @ '': '' @ dumps_str model] @ ''}''"

text \<open>
  \<^verbatim>\<open>hashlib.sha256(query_string.encode()).hexdigest()\<close>; the digest function of the
  standard library is the parameter \<open>sha256\<close>.
\<close>

definition generate_query_hash :: "(string \<Rightarrow> string) \<Rightarrow> message list \<Rightarrow> string \<Rightarrow> string" where
  "generate_query_hash sha256 messages model = sha256 (query_string messages model)"

text \<open>Two dictionaries are the same Python object value: same keys, same values.\<close>

definition same_dict :: "message \<Rightarrow> message \<Rightarrow> bool" where
  "same_dict a b \<longleftrightarrow> distinct (map fst a) \<and> distinct (map fst b) \<and> map_of a = map_of b"

section \<open>The cache store (\<^verbatim>\<open>app/services/cache_service.py\<close>)\<close>

record cache_entry =
  entry_id :: nat
  user_id :: string
  query_hash :: string
  query_text :: string
  query_embedding :: "real list"
  response_text :: string
  model_used :: string
  tokens_saved :: int
  cost_saved :: real
  expires_at :: real
  hit_count :: int

record search_result =
  sr_id :: nat
  sr_query_text :: string
  sr_response_text :: string
  similarity :: real
  sr_hit_count :: int
  sr_model_used :: string

record usage_log =
  log_user_id :: string
  api_key_id :: "string option"
  cache_hit :: bool
  tokens_used :: int
  cost :: real
  log_model_used :: "string option"
  response_time_ms :: int
  status_code :: "nat option"

record monthly_usage_row =
  mu_id :: nat
  mu_user_id :: string
  month_year :: string
  requests_used :: int
  cache_hits :: int
  cache_misses :: int
  mu_tokens_saved :: int
  mu_cost_saved :: real

text \<open>
  The tables the core reads and writes, in insertion order. The store assigns the
  \<^verbatim>\<open>id\<close> of an inserted row from a counter; the columns an insert does not name take
  their defaults (\<^verbatim>\<open>hit_count\<close>, the monthly totals: zero).
\<close>

record db =
  cache_entries :: "cache_entry list"
  usage_logs :: "usage_log list"
  monthly_usage :: "monthly_usage_row list"
  next_id :: nat

record llm_response =
  content :: string
  prompt_tokens :: int
  completion_tokens :: int
  total_tokens :: int

text \<open>
  What the collaborators answer during one request: which store calls raise, the two
  embedding calls (\<open>None\<close> when the call raises), the similarity search of the store as a
  function of its parameters, the upstream completion, the clock and the elapsed time.
\<close>

record backend =
  sha256 :: "string \<Rightarrow> string"
  exact_read_raises :: bool
  embed_lookup :: "real list option"
  match_cache_entries :: "real list \<Rightarrow> real \<Rightarrow> nat \<Rightarrow> string \<Rightarrow> search_result list option"
  hit_read_raises :: bool
  hit_update_raises :: bool
  log_insert_raises :: bool
  openai_result :: "llm_response option"
  embed_store :: "real list option"
  store_insert_raises :: bool
  stats_read_raises :: bool
  now :: real
  elapsed_ms :: int

text \<open>\<^verbatim>\<open>.single()\<close>: one row, no data, or an error when several rows match.\<close>

definition single :: "'a list \<Rightarrow> 'a read" where
  "single rows = (case rows of [] \<Rightarrow> NoData | [r] \<Rightarrow> Data r | _ \<Rightarrow> Raises)"

definition execute_single :: "bool \<Rightarrow> 'a list \<Rightarrow> 'a read" where
  "execute_single raises rows = (if raises then Raises else single rows)"

definition get_exact_match :: "backend \<Rightarrow> db \<Rightarrow> string \<Rightarrow> string \<Rightarrow> cache_entry option" where
  "get_exact_match env s qh uid =
     (case execute_single (exact_read_raises env)
             (filter (\<lambda>r. query_hash r = qh \<and> user_id r = uid) (cache_entries s)) of
        Data r \<Rightarrow> Some r
      | NoData \<Rightarrow> None
      | Raises \<Rightarrow> None)"

definition get_semantic_matches :: "backend \<Rightarrow> string \<Rightarrow> string \<Rightarrow> real \<Rightarrow> search_result list" where
  "get_semantic_matches env qt uid threshold =
     (case embed_lookup env of
        None \<Rightarrow> []
      | Some embedding \<Rightarrow>
          (case match_cache_entries env embedding threshold 5 uid of
             None \<Rightarrow> []
           | Some rows \<Rightarrow> rows))"

definition store_cache_entry ::
  "backend \<Rightarrow> db \<Rightarrow> string \<Rightarrow> string \<Rightarrow> string \<Rightarrow> string \<Rightarrow> string \<Rightarrow> int \<Rightarrow> real \<Rightarrow>
   (error + cache_entry) \<times> db" where
  "store_cache_entry env s uid qh qt response model tokens cst =
     (case embed_store env of
        None \<Rightarrow> (Inl EmbeddingError, s)
      | Some embedding \<Rightarrow>
          if store_insert_raises env then (Inl BackendError, s)
          else
            (let row = \<lparr> entry_id = next_id s, user_id = uid, query_hash = qh,
                         query_text = qt, query_embedding = embedding,
                         response_text = response, model_used = model,
                         tokens_saved = tokens, cost_saved = cst,
                         expires_at = now env + 24 * 3600, hit_count = 0 \<rparr>
             in (Inr row, s \<lparr> cache_entries := cache_entries s @ [row],
                               next_id := next_id s + 1 \<rparr>)))"

definition update_hit_count :: "backend \<Rightarrow> db \<Rightarrow> nat \<Rightarrow> db" where
  "update_hit_count env s cache_id =
     (case execute_single (hit_read_raises env)
             (filter (\<lambda>r. entry_id r = cache_id) (cache_entries s)) of
        Raises \<Rightarrow> s
      | current \<Rightarrow>
          (let new_count = (case current of Data r \<Rightarrow> hit_count r + 1 | _ \<Rightarrow> 1)
           in if hit_update_raises env then s
              else s \<lparr> cache_entries :=
                         map (\<lambda>r. if entry_id r = cache_id then r \<lparr> hit_count := new_count \<rparr> else r)
                             (cache_entries s) \<rparr>))"

definition log_usage ::
  "backend \<Rightarrow> db \<Rightarrow> string \<Rightarrow> string option \<Rightarrow> bool \<Rightarrow> int \<Rightarrow> real \<Rightarrow> string \<Rightarrow> int \<Rightarrow> db" where
  "log_usage env s uid key_id hit tokens cst model ms =
     (if log_insert_raises env then s
      else s \<lparr> usage_logs := usage_logs s @
                 [\<lparr> log_user_id = uid, api_key_id = key_id, cache_hit = hit,
                    tokens_used = tokens, cost = cst, log_model_used = Some model,
                    response_time_ms = ms, status_code = None \<rparr>] \<rparr>)"

text \<open>
  The data-model invariant of the cache table: the store's ids are unique, and an owner
  holds at most one entry per content hash.
\<close>

definition store_ok :: "db \<Rightarrow> bool" where
  "store_ok s \<longleftrightarrow> distinct (map entry_id (cache_entries s))
     \<and> distinct (map (\<lambda>r. (user_id r, query_hash r)) (cache_entries s))"

text \<open>The ids in the table were all handed out by the store's counter.\<close>

definition ids_fresh :: "db \<Rightarrow> bool" where
  "ids_fresh s \<longleftrightarrow> list_all (\<lambda>r. entry_id r < next_id s) (cache_entries s)"

section \<open>The request pipeline (\<^verbatim>\<open>app/routers/proxy.py\<close>)\<close>

record chat_request =
  messages :: "message list"
  model :: string
  max_tokens :: "int option"
  temperature :: "real option"
  stream :: bool

text \<open>
  \<^verbatim>\<open>ChatCompletionResponse\<close>; \<open>choices\<close> holds the \<^verbatim>\<open>message.content\<close> of each
  choice and \<open>usage\<close> the prompt, completion and total token counts.
\<close>

record chat_response =
  choices :: "string list"
  cached :: bool
  cache_type :: "string option"
  resp_similarity :: "real option"
  usage :: "(int \<times> int \<times> int) option"

text \<open>\<^verbatim>\<open>str(e)\<close> of the exception classes of the model.\<close>

fun str_of_exception :: "error \<Rightarrow> string" where
  "str_of_exception EmbeddingError = ''embedding generation failed''"
| "str_of_exception BackendError = ''store request failed''"
| "str_of_exception UpstreamError = ''upstream call failed''"
| "str_of_exception NotImplementedError =
     ''Anthropic API integration needs updating for the latest SDK version''"
| "str_of_exception e = ''error''"

text \<open>\<^verbatim>\<open>except Exception as e: raise HTTPException(status_code=500, detail=str(e))\<close>.\<close>

definition internal_error :: "error \<Rightarrow> error" where
  "internal_error e = HTTPException 500 (Message (str_of_exception e))"

text \<open>\<^verbatim>\<open>call_anthropic\<close> raises \<^verbatim>\<open>NotImplementedError\<close> on every call.\<close>

definition call_openai :: "backend \<Rightarrow> error + llm_response" where
  "call_openai env = (case openai_result env of None \<Rightarrow> Inl UpstreamError | Some r \<Rightarrow> Inr r)"

definition call_anthropic :: "backend \<Rightarrow> error + llm_response" where
  "call_anthropic env = Inl NotImplementedError"

text \<open>The part of \<^verbatim>\<open>chat_completions\<close> after both lookups missed.\<close>

definition on_miss ::
  "backend \<Rightarrow> db \<Rightarrow> chat_request \<Rightarrow> string \<Rightarrow> string \<Rightarrow> string \<Rightarrow> (error + chat_response) \<times> db" where
  "on_miss env s request uid qh qt =
     (let called =
            (if startswith (model request) ''gpt'' then call_openai env
             else if startswith (model request) ''claude'' then call_anthropic env
             else Inl (HTTPException 400 (Message (''Unsupported model: '' @ model request))))
      in case called of
           Inl (HTTPException c d) \<Rightarrow> (Inl (HTTPException c d), s)
         | Inl e \<Rightarrow> (Inl (internal_error e), s)
         | Inr llm \<Rightarrow>
             (let tokens = total_tokens llm;
                  cost_per_token = 0.002 / 1000;
                  cst = real_of_int tokens * cost_per_token
              in case store_cache_entry env s uid qh qt (content llm) (model request) tokens cst of
                   (Inl e, s1) \<Rightarrow> (Inl (internal_error e), s1)
                 | (Inr row, s1) \<Rightarrow>
                     (Inr \<lparr> choices = [content llm], cached = False, cache_type = None,
                            resp_similarity = None,
                            usage = Some (prompt_tokens llm, completion_tokens llm, total_tokens llm) \<rparr>,
                      log_usage env s1 uid None False tokens cst (model request) (elapsed_ms env))))"

definition chat_completions ::
  "backend \<Rightarrow> db \<Rightarrow> chat_request \<Rightarrow> string \<Rightarrow> (error + chat_response) \<times> db" where
  "chat_completions env s request uid =
     (let qh = generate_query_hash (sha256 env) (messages request) (model request);
          qt = dumps_messages False (messages request)
      in case get_exact_match env s qh uid of
           Some exact_match \<Rightarrow>
             (let s1 = update_hit_count env s (entry_id exact_match);
                  s2 = log_usage env s1 uid None True 0 0 (model request) (elapsed_ms env)
              in (Inr \<lparr> choices = [response_text exact_match], cached = True,
                        cache_type = Some ''exact'', resp_similarity = None, usage = None \<rparr>, s2))
         | None \<Rightarrow>
             (case get_semantic_matches env qt uid 0.85 of
                best_match # others \<Rightarrow>
                  (let s1 = update_hit_count env s (sr_id best_match);
                       s2 = log_usage env s1 uid None True 0 0 (model request) (elapsed_ms env)
                   in (Inr \<lparr> choices = [sr_response_text best_match], cached = True,
                             cache_type = Some ''semantic'',
                             resp_similarity = Some (similarity best_match), usage = None \<rparr>, s2))
              | [] \<Rightarrow> on_miss env s request uid qh qt))"

record cache_stats =
  total_requests :: nat
  stats_cache_hits :: nat
  cache_hit_rate :: real
  total_cost_saved :: real
  total_tokens_saved :: int

definition get_cache_stats :: "backend \<Rightarrow> db \<Rightarrow> string \<Rightarrow> error + cache_stats" where
  "get_cache_stats env s uid =
     (if stats_read_raises env then Inl (internal_error BackendError)
      else
        (let logs = filter (\<lambda>l. log_user_id l = uid) (usage_logs s);
             n = length logs;
             hits = length (filter cache_hit logs)
         in Inr \<lparr> total_requests = n,
                  stats_cache_hits = hits,
                  cache_hit_rate = (if n > 0 then real hits / real n else 0),
                  total_cost_saved = sum_list (map cost (filter cache_hit logs)),
                  total_tokens_saved = sum_list (map tokens_used (filter cache_hit logs)) \<rparr>))"

section \<open>Usage accounting\<close>

record usage_env =
  usage_select_raises :: bool
  usage_write_raises :: bool
  current_month :: string

text \<open>\<^verbatim>\<open>SubscriptionService.increment_usage(user_id, requests_count=1, cache_hit=False)\<close>.\<close>

definition increment_usage :: "usage_env \<Rightarrow> db \<Rightarrow> string \<Rightarrow> int \<Rightarrow> bool \<Rightarrow> db" where
  "increment_usage uenv s uid requests_count hit =
     (case execute_single (usage_select_raises uenv)
             (filter (\<lambda>r. mu_user_id r = uid \<and> month_year r = current_month uenv)
                     (monthly_usage s)) of
        Raises \<Rightarrow> s
      | Data existing \<Rightarrow>
          if usage_write_raises uenv then s
          else s \<lparr> monthly_usage :=
                     map (\<lambda>r. if mu_id r = mu_id existing
                               then (if hit
                                     then r \<lparr> requests_used := requests_used existing + requests_count,
                                             cache_hits := cache_hits existing + 1 \<rparr>
                                     else r \<lparr> requests_used := requests_used existing + requests_count,
                                             cache_misses := cache_misses existing + 1 \<rparr>)
                               else r)
                         (monthly_usage s) \<rparr>
      | NoData \<Rightarrow>
          if usage_write_raises uenv then s
          else s \<lparr> monthly_usage := monthly_usage s @
                     [\<lparr> mu_id = next_id s, mu_user_id = uid, month_year = current_month uenv,
                        requests_used = requests_count,
                        cache_hits = (if hit then 1 else 0),
                        cache_misses = (if hit then 0 else 1),
                        mu_tokens_saved = 0, mu_cost_saved = 0 \<rparr>],
                   next_id := next_id s + 1 \<rparr>)"

text \<open>
  A call with keyword arguments: a keyword that is not a parameter of the callee raises
  \<^verbatim>\<open>TypeError\<close> before the body runs; a parameter that is not passed takes its default.
\<close>

datatype pyarg = ArgStr string | ArgBool bool | ArgInt int | ArgReal real

definition increment_usage_params :: "string list" where
  "increment_usage_params = [''user_id'', ''requests_count'', ''cache_hit'']"

definition call_increment_usage :: "usage_env \<Rightarrow> db \<Rightarrow> (string \<times> pyarg) list \<Rightarrow> error + db" where
  "call_increment_usage uenv s kwargs =
     (if filter (\<lambda>k. k \<notin> set increment_usage_params) (map fst kwargs) \<noteq> [] then Inl TypeError
      else
        (case map_of kwargs ''user_id'' of
           Some (ArgStr uid) \<Rightarrow>
             Inr (increment_usage uenv s uid
                    (case map_of kwargs ''requests_count'' of Some (ArgInt n) \<Rightarrow> n | _ \<Rightarrow> 1)
                    (case map_of kwargs ''cache_hit'' of Some (ArgBool b) \<Rightarrow> b | _ \<Rightarrow> False))
         | _ \<Rightarrow> Inl TypeError))"

text \<open>
  \<^verbatim>\<open>UsageTrackingMiddleware._log_detailed_usage\<close>; \<open>raises\<close> says whether the import or
  the insert inside its \<^verbatim>\<open>try\<close> raises.
\<close>

definition log_detailed_usage ::
  "bool \<Rightarrow> db \<Rightarrow> string \<Rightarrow> string option \<Rightarrow> bool \<Rightarrow> int \<Rightarrow> real \<Rightarrow> int \<Rightarrow> nat \<Rightarrow> db" where
  "log_detailed_usage raises s uid key_id is_cache_hit tokens cst ms code =
     (if raises then s
      else s \<lparr> usage_logs := usage_logs s @
                 [\<lparr> log_user_id = uid, api_key_id = key_id, cache_hit = is_cache_hit,
                    tokens_used = (if is_cache_hit then 0 else tokens),
                    cost = (if is_cache_hit then 0 else cst),
                    log_model_used = None, response_time_ms = ms,
                    status_code = Some code \<rparr>] \<rparr>)"

text \<open>\<^verbatim>\<open>UsageTrackingMiddleware._track_usage\<close>: any exception of its body is swallowed.\<close>

definition track_usage ::
  "usage_env \<Rightarrow> bool \<Rightarrow> db \<Rightarrow> string \<Rightarrow> string option \<Rightarrow> bool \<Rightarrow> int \<Rightarrow> real \<Rightarrow> int \<Rightarrow> nat \<Rightarrow> db" where
  "track_usage uenv raises s uid key_id is_cache_hit tokens cst ms code =
     (case (if is_cache_hit
            then call_increment_usage uenv s
                   [(''user_id'', ArgStr uid), (''is_cache_hit'', ArgBool True),
                    (''tokens_saved'', ArgInt tokens), (''cost_saved'', ArgReal cst)]
            else call_increment_usage uenv s
                   [(''user_id'', ArgStr uid), (''is_cache_hit'', ArgBool False)]) of
        Inl e \<Rightarrow> s
      | Inr s1 \<Rightarrow> log_detailed_usage raises s1 uid key_id is_cache_hit tokens cst ms code)"

text \<open>Every logged cache hit carries zero tokens and zero cost.\<close>

definition hits_cost_nothing :: "usage_log list \<Rightarrow> bool" where
  "hits_cost_nothing logs \<longleftrightarrow>
     list_all (\<lambda>l. tokens_used l = 0 \<and> cost l = 0) (filter cache_hit logs)"

text \<open>
  The states the core can reach from a store whose usage log is empty: by serving a
  request, by an accounting call, by a detailed log write.
\<close>

inductive reachable :: "db \<Rightarrow> bool" where
  start: "usage_logs s = [] \<Longrightarrow> reachable s"
| served: "reachable s \<Longrightarrow> chat_completions env s request uid = (r, s') \<Longrightarrow> reachable s'"
| counted: "reachable s \<Longrightarrow> reachable (increment_usage uenv s uid n hit)"
| tracked: "reachable s \<Longrightarrow> reachable (track_usage uenv raises s uid key_id hit tokens cst ms code)"
| logged: "reachable s \<Longrightarrow> reachable (log_detailed_usage raises s uid key_id hit tokens cst ms code)"

section \<open>Sample inputs\<close>

text \<open>A store that answers the subscription read with the given plan and usage.\<close>

definition plan_env :: "plan \<Rightarrow> int read \<Rightarrow> sub_env" where
  "plan_env p u = \<lparr> sub_read = Data \<lparr> status = Some ''active'', subscription_plans = Present p \<rparr>,
     free_plan_read = NoData, existing_read = NoData, insert_sub = None,
     usage_read = u, feature_read = NoData \<rparr>"

definition named_plan :: "string \<Rightarrow> int option \<Rightarrow> plan" where
  "named_plan n q = empty_plan \<lparr> name := Present n, monthly_requests := q \<rparr>"

definition empty_db :: db where
  "empty_db = \<lparr> cache_entries = [], usage_logs = [], monthly_usage = [], next_id = 0 \<rparr>"

definition sample_llm :: llm_response where
  "sample_llm = \<lparr> content = ''Paris'', prompt_tokens = 12, completion_tokens = 3, total_tokens = 15 \<rparr>"

text \<open>
  A backend on which every call succeeds and the similarity search finds nothing. The
  identity stands in for the digest.
\<close>

definition healthy :: backend where
  "healthy = \<lparr> sha256 = (\<lambda>s. s), exact_read_raises = False, embed_lookup = Some [1, 0],
     match_cache_entries = (\<lambda>e t k u. Some []), hit_read_raises = False,
     hit_update_raises = False, log_insert_raises = False, openai_result = Some sample_llm,
     embed_store = Some [1, 0], store_insert_raises = False, stats_read_raises = False,
     now = 0, elapsed_ms = 7 \<rparr>"

definition sample_request :: chat_request where
  "sample_request = \<lparr> messages = [[(''role'', ''user''), (''content'', ''Capital of France?'')]],
     model = ''gpt-4'', max_tokens = None, temperature = Some 1, stream = False \<rparr>"

text \<open>The entry a first store into the empty table creates.\<close>

definition stored_row :: cache_entry where
  "stored_row = \<lparr> entry_id = 0, user_id = ''u1'', query_hash = ''h1'', query_text = ''q'',
     query_embedding = [1, 0], response_text = ''Paris'', model_used = ''gpt-4'',
     tokens_saved = 15, cost_saved = 0, expires_at = 86400, hit_count = 0 \<rparr>"

text \<open>
  A table that holds this entry, and the entry a second store under the same owner and
  hash adds to it.
\<close>

definition one_entry_db :: db where
  "one_entry_db = empty_db \<lparr> cache_entries := [stored_row], next_id := 1 \<rparr>"

definition second_row :: cache_entry where
  "second_row = stored_row \<lparr> entry_id := 1, response_text := ''Lyon'' \<rparr>"

text \<open>The store after the sample request was served once, and after it was served twice.\<close>

definition after_miss :: db where
  "after_miss = snd (chat_completions healthy empty_db sample_request ''u1'')"

definition after_hit :: db where
  "after_hit = snd (chat_completions healthy after_miss sample_request ''u1'')"

text \<open>A month in which owner \<^verbatim>\<open>u1\<close> already has a usage row.\<close>

definition january :: usage_env where
  "january = \<lparr> usage_select_raises = False, usage_write_raises = False,
                current_month = ''2025-01'' \<rparr>"

definition usage_db :: db where
  "usage_db = \<lparr> cache_entries = [], usage_logs = [],
     monthly_usage = [\<lparr> mu_id = 0, mu_user_id = ''u1'', month_year = ''2025-01'',
                        requests_used = 3, cache_hits = 1, cache_misses = 2,
                        mu_tokens_saved = 0, mu_cost_saved = 0 \<rparr>],
     next_id = 1 \<rparr>"

text \<open>A store on which every subscription read raises.\<close>

definition outage_env :: "int read \<Rightarrow> sub_env" where
  "outage_env u = \<lparr> sub_read = Raises, free_plan_read = Raises, existing_read = Raises,
     insert_sub = None, usage_read = u, feature_read = Raises \<rparr>"

text \<open>A conversation of two messages.\<close>

definition two_messages :: "message list" where
  "two_messages = [[(''role'', ''system''), (''content'', ''Be brief.'')],
                   [(''role'', ''user''), (''content'', ''Hi'')]]"

section \<open>Properties\<close>

subsection \<open>Quota admission\<close>

text \<open>
  A paid plan is not denied at its quota: \<^verbatim>\<open>check_usage_limit\<close> only raises for the plan
  named \<^verbatim>\<open>free\<close>; for any other plan name it admits the request and reports overage
  (``For paid tiers, allow overage but track it''). Here: plan \<^verbatim>\<open>startup\<close>, quota 1000,
  1000 requests made.
\<close>

theorem paid_plan_over_quota_admitted:
  "check_usage_limit (plan_env (named_plan ''startup'' (Some 1000)) (Data 1000))
     = Inr \<lparr> allow = True, gate_overage = True, overage_amount = Some 0 \<rparr>"
  by (simp add: check_usage_limit_def check_usage_limits_def plan_env_def named_plan_def
        get_user_subscription_def plan_of_def empty_plan_def Let_def)

text \<open>
  A plan whose name column is \<^verbatim>\<open>null\<close> is not the plan \<^verbatim>\<open>free\<close>: it is admitted
  with overage like a paid plan.
\<close>

lemma null_name_over_quota_admitted:
  "check_usage_limit
     (plan_env (empty_plan \<lparr> name := Null, monthly_requests := Some 1000 \<rparr>) (Data 1000))
     = Inr \<lparr> allow = True, gate_overage = True, overage_amount = Some 0 \<rparr>"
  by (simp add: check_usage_limit_def check_usage_limits_def plan_env_def
        get_user_subscription_def plan_of_def empty_plan_def Let_def)

text \<open>
  C2 (amended). With the owner's plan \<open>p\<close> read and \<open>n\<close> requests made this month:
  a plan without quota is always admitted, whatever the usage read answers; a plan with
  quota \<open>q\<close> is admitted without overage when \<open>n < q\<close>; at or over the quota the request is
  denied with status 429, carrying the usage and the limit, only when the plan is named
  \<^verbatim>\<open>free\<close> (a plan dictionary without a \<^verbatim>\<open>name\<close> key counts as \<^verbatim>\<open>free\<close>), and is
  admitted with the overage reported for any other plan, a plan whose name is
  \<^verbatim>\<open>null\<close> included.
\<close>

theorem quota_gate:
  assumes "plan_of (get_user_subscription env) = Inr p"
  shows "(monthly_requests p = None \<longrightarrow>
            check_usage_limit env = Inr \<lparr> allow = True, gate_overage = False, overage_amount = None \<rparr>)
       \<and> (\<forall>q n. monthly_requests p = Some q \<and> usage_read env = Data n \<longrightarrow>
            check_usage_limit env =
              (if n < q then Inr \<lparr> allow = True, gate_overage = False, overage_amount = None \<rparr>
               else if name p = Missing \<or> name p = Present ''free''
               then Inl (HTTPException 429 (UsageDetail ''Monthly limit exceeded'' n (Some q) ''/pricing''))
               else Inr \<lparr> allow = True, gate_overage = True,
                          overage_amount = Some (if q = 0 then 0 else n - q) \<rparr>))"
  using assms
  by (auto simp: check_usage_limit_def check_usage_limits_def Let_def
           split: read.splits option.splits field.splits)

theorem quota_gate_witness:
  "plan_of (get_user_subscription (plan_env (named_plan ''free'' (Some 1000)) (Data 1000)))
      = Inr (named_plan ''free'' (Some 1000))
   \<and> check_usage_limit (plan_env (named_plan ''free'' (Some 1000)) (Data 1000))
      = Inl (HTTPException 429 (UsageDetail ''Monthly limit exceeded'' 1000 (Some 1000) ''/pricing''))"
proof -
  have h: "plan_of (get_user_subscription (plan_env (named_plan ''free'' (Some 1000)) (Data 1000)))
      = Inr (named_plan ''free'' (Some 1000))"
    by (simp add: plan_env_def get_user_subscription_def plan_of_def)
  have m: "monthly_requests (named_plan ''free'' (Some 1000)) = Some 1000"
    and n: "name (named_plan ''free'' (Some 1000)) = Present ''free''"
    and u: "usage_read (plan_env (named_plan ''free'' (Some 1000)) (Data 1000)) = Data 1000"
    by (simp_all add: named_plan_def plan_env_def)
  from quota_gate [OF h] m n u show ?thesis using h by simp
qed

subsection \<open>Cache store\<close>

lemma log_usage_cache_entries [simp]:
  "cache_entries (log_usage env s uid k h t c m ms) = cache_entries s"
  by (simp add: log_usage_def)

lemma store_cache_entry_Inr:
  assumes "store_cache_entry env s uid qh qt resp m tokens cst = (Inr row, s')"
  shows "cache_entries s' = cache_entries s @ [row] \<and> user_id row = uid \<and> query_hash row = qh
         \<and> response_text row = resp \<and> model_used row = m \<and> hit_count row = 0
         \<and> entry_id row = next_id s"
  using assms
  by (auto simp: store_cache_entry_def Let_def split: option.splits if_splits)

lemma filter_single_distinct:
  assumes "distinct (map f xs)" and "x \<in> set xs"
  shows "filter (\<lambda>r. f r = f x) xs = [x]"
  using assms
proof (induction xs)
  case Nil
  then show ?case by simp
next
  case (Cons a xs)
  show ?case
  proof (cases "a = x")
    case True
    with Cons.prems have "\<forall>r\<in>set xs. f r \<noteq> f x" by (auto simp: image_iff)
    then have "filter (\<lambda>r. f r = f x) xs = []" by (simp add: filter_empty_conv)
    with True show ?thesis by simp
  next
    case False
    with Cons.prems have "x \<in> set xs" and "f a \<noteq> f x" by (auto simp: image_iff)
    with Cons show ?thesis by simp
  qed
qed

lemma get_exact_match_unique:
  assumes "distinct (map (\<lambda>r. (user_id r, query_hash r)) (cache_entries s))"
    and "e \<in> set (cache_entries s)" and "query_hash e = qh" and "user_id e = uid"
    and "\<not> exact_read_raises env"
  shows "get_exact_match env s qh uid = Some e"
proof -
  have "filter (\<lambda>r. (user_id r, query_hash r) = (user_id e, query_hash e)) (cache_entries s) = [e]"
    using filter_single_distinct [OF assms(1) assms(2)] by simp
  moreover have "filter (\<lambda>r. query_hash r = qh \<and> user_id r = uid) (cache_entries s)
                 = filter (\<lambda>r. (user_id r, query_hash r) = (user_id e, query_hash e)) (cache_entries s)"
    using assms(3,4) by (intro filter_cong) auto
  ultimately have "filter (\<lambda>r. query_hash r = qh \<and> user_id r = uid) (cache_entries s) = [e]"
    by simp
  then show ?thesis
    using assms(5) by (simp add: get_exact_match_def execute_single_def single_def)
qed

lemma update_hit_count_found:
  assumes "distinct (map entry_id (cache_entries s))" and "e \<in> set (cache_entries s)"
    and "\<not> hit_read_raises env" and "\<not> hit_update_raises env"
  shows "map hit_count (filter (\<lambda>r. entry_id r = entry_id e)
            (cache_entries (update_hit_count env s (entry_id e)))) = [hit_count e + 1]"
proof -
  have f: "filter (\<lambda>r. entry_id r = entry_id e) (cache_entries s) = [e]"
    by (rule filter_single_distinct [OF assms(1,2)])
  have "filter (\<lambda>r. entry_id r = entry_id e)
          (map (\<lambda>r. if entry_id r = entry_id e then r \<lparr> hit_count := hit_count e + 1 \<rparr> else r)
               (cache_entries s))
        = map (\<lambda>r. r \<lparr> hit_count := hit_count e + 1 \<rparr>)
              (filter (\<lambda>r. entry_id r = entry_id e) (cache_entries s))"
    by (induction "cache_entries s") (auto simp: filter_map o_def intro: )
  then show ?thesis
    using f assms(3,4) by (simp add: update_hit_count_def execute_single_def single_def)
qed

text \<open>
  A store does not look the key up: on a table within its invariant, with every
  collaborator answering, storing under an owner and hash that already has an entry
  succeeds and adds a second row. The exact lookup then finds two rows and answers
  ``no match''.
\<close>

theorem second_store_hides_entry:
  "store_ok one_entry_db \<and> ids_fresh one_entry_db
   \<and> store_cache_entry healthy one_entry_db ''u1'' ''h1'' ''q'' ''Lyon'' ''gpt-4'' 15 0
       = (Inr second_row, one_entry_db \<lparr> cache_entries := [stored_row, second_row], next_id := 2 \<rparr>)
   \<and> get_exact_match healthy
         (one_entry_db \<lparr> cache_entries := [stored_row, second_row], next_id := 2 \<rparr>) ''h1'' ''u1''
       = None"
  by (simp add: store_ok_def ids_fresh_def one_entry_db_def empty_db_def stored_row_def
        second_row_def store_cache_entry_def healthy_def get_exact_match_def execute_single_def
        single_def Let_def)

lemma store_sample:
  "store_cache_entry healthy empty_db ''u1'' ''h1'' ''q'' ''Paris'' ''gpt-4'' 15 0
     = (Inr stored_row, empty_db \<lparr> cache_entries := [stored_row], next_id := 1 \<rparr>)"
  by (simp add: store_cache_entry_def healthy_def empty_db_def stored_row_def Let_def)

text \<open>
  C6 (amended). Round trip: when the owner has no entry for the hash before the store
  and \<^verbatim>\<open>store_cache_entry\<close> succeeds, an exact lookup of the same hash and owner whose
  read does not fail returns an entry with the stored response text and the stored
  model.
\<close>

theorem store_then_lookup:
  assumes "store_cache_entry env s uid qh qt resp m tokens cst = (Inr row, s')"
    and "filter (\<lambda>r. query_hash r = qh \<and> user_id r = uid) (cache_entries s) = []"
    and "\<not> exact_read_raises env'"
  shows "\<exists>e. get_exact_match env' s' qh uid = Some e \<and> response_text e = resp \<and> model_used e = m"
proof -
  from store_cache_entry_Inr [OF assms(1)]
  have ce: "cache_entries s' = cache_entries s @ [row]"
    and row: "query_hash row = qh" "user_id row = uid"
      "response_text row = resp" "model_used row = m" by simp_all
  from ce assms(2) row(1,2)
  have "filter (\<lambda>r. query_hash r = qh \<and> user_id r = uid) (cache_entries s') = [row]"
    by simp
  with assms(3) have "get_exact_match env' s' qh uid = Some row"
    by (simp add: get_exact_match_def execute_single_def single_def)
  with row(3,4) show ?thesis by blast
qed

theorem store_then_lookup_witness:
  "store_cache_entry healthy empty_db ''u1'' ''h1'' ''q'' ''Paris'' ''gpt-4'' 15 0
     = (Inr stored_row, empty_db \<lparr> cache_entries := [stored_row], next_id := 1 \<rparr>)
   \<and> filter (\<lambda>r. query_hash r = ''h1'' \<and> user_id r = ''u1'') (cache_entries empty_db) = []
   \<and> \<not> exact_read_raises healthy
   \<and> (\<exists>e. get_exact_match healthy (empty_db \<lparr> cache_entries := [stored_row], next_id := 1 \<rparr>)
              ''h1'' ''u1'' = Some e
          \<and> response_text e = ''Paris'' \<and> model_used e = ''gpt-4'')"
proof -
  have fresh: "filter (\<lambda>r. query_hash r = ''h1'' \<and> user_id r = ''u1'') (cache_entries empty_db) = []"
    by (simp add: empty_db_def)
  have nr: "\<not> exact_read_raises healthy" by (simp add: healthy_def)
  from store_then_lookup [OF store_sample fresh nr] store_sample fresh nr show ?thesis by blast
qed

lemma on_miss_Inr:
  assumes "on_miss env s request uid qh qt = (Inr r1, s1)"
  shows "\<exists>row. cache_entries s1 = cache_entries s @ [row] \<and> user_id row = uid
           \<and> query_hash row = qh \<and> choices r1 = [response_text row]"
  using assms
  by (auto simp: on_miss_def Let_def split: sum.splits error.splits prod.splits if_splits
           dest!: store_cache_entry_Inr)

lemma chat_completions_miss:
  assumes "chat_completions env s request uid = (Inr r1, s1)" and "\<not> cached r1"
  shows "\<exists>row. cache_entries s1 = cache_entries s @ [row] \<and> user_id row = uid
           \<and> query_hash row = generate_query_hash (sha256 env) (messages request) (model request)
           \<and> choices r1 = [response_text row]"
proof -
  let ?qh = "generate_query_hash (sha256 env) (messages request) (model request)"
  let ?qt = "dumps_messages False (messages request)"
  from assms have "on_miss env s request uid ?qh ?qt = (Inr r1, s1)"
    by (auto simp: chat_completions_def Let_def split: option.splits list.splits)
  then show ?thesis by (rule on_miss_Inr)
qed

text \<open>
  C1. A request was served as a miss and stored (the answer is not cached), leaving the
  table within its invariant. The same request by the same owner, on a store whose reads
  and update succeed, is answered from the cache as an exact match with the text of the
  first answer, and the matched entry's \<^verbatim>\<open>hit_count\<close> is one more than before.
\<close>

theorem repeat_request_exact_hit:
  assumes "chat_completions env s request uid = (Inr r1, s1)" and "\<not> cached r1"
    and "store_ok s1"
    and "sha256 env2 = sha256 env"
    and "\<not> exact_read_raises env2" and "\<not> hit_read_raises env2" and "\<not> hit_update_raises env2"
  shows "\<exists>e r2 s2.
           get_exact_match env2 s1
               (generate_query_hash (sha256 env2) (messages request) (model request)) uid = Some e
         \<and> chat_completions env2 s1 request uid = (Inr r2, s2)
         \<and> cached r2 \<and> cache_type r2 = Some ''exact'' \<and> choices r2 = choices r1
         \<and> map hit_count (filter (\<lambda>r. entry_id r = entry_id e) (cache_entries s2))
             = [hit_count e + 1]"
proof -
  let ?qh = "generate_query_hash (sha256 env2) (messages request) (model request)"
  from chat_completions_miss [OF assms(1,2)] obtain row where
    ce: "cache_entries s1 = cache_entries s @ [row]" and u: "user_id row = uid"
    and q: "query_hash row = generate_query_hash (sha256 env) (messages request) (model request)"
    and resp: "choices r1 = [response_text row]"
    by blast
  from ce u q assms(4)
  have row: "row \<in> set (cache_entries s1)" "query_hash row = ?qh" "user_id row = uid"
    by simp_all
  from assms(3) have d1: "distinct (map entry_id (cache_entries s1))"
    and d2: "distinct (map (\<lambda>r. (user_id r, query_hash r)) (cache_entries s1))"
    by (simp_all add: store_ok_def)
  have ex: "get_exact_match env2 s1 ?qh uid = Some row"
    by (rule get_exact_match_unique [OF d2 row assms(5)])
  let ?s' = "update_hit_count env2 s1 (entry_id row)"
  let ?s2 = "log_usage env2 ?s' uid None True 0 0 (model request) (elapsed_ms env2)"
  let ?r2 = "\<lparr> choices = [response_text row], cached = True, cache_type = Some ''exact'',
               resp_similarity = None, usage = None \<rparr>"
  have run: "chat_completions env2 s1 request uid = (Inr ?r2, ?s2)"
    using ex by (simp add: chat_completions_def Let_def)
  have hc: "map hit_count (filter (\<lambda>r. entry_id r = entry_id row) (cache_entries ?s2))
              = [hit_count row + 1]"
    using update_hit_count_found [OF d1 row(1) assms(6,7)] by simp
  from ex run hc resp show ?thesis by simp
qed

lemma get_exact_match_empty: "get_exact_match env empty_db qh uid = None"
  by (simp add: get_exact_match_def empty_db_def execute_single_def single_def)

lemma get_exact_match_no_rows: "cache_entries s = [] \<Longrightarrow> get_exact_match env s qh uid = None"
  by (simp add: get_exact_match_def execute_single_def single_def)

lemma first_run:
  "\<exists>r1 s1. chat_completions healthy empty_db sample_request ''u1'' = (Inr r1, s1)
      \<and> \<not> cached r1 \<and> store_ok s1"
  by (simp add: chat_completions_def get_exact_match_no_rows get_semantic_matches_def healthy_def
        on_miss_def sample_request_def startswith_def call_openai_def store_cache_entry_def
        store_ok_def empty_db_def Let_def)

theorem repeat_request_exact_hit_witness:
  "\<exists>r1 s1. chat_completions healthy empty_db sample_request ''u1'' = (Inr r1, s1)
      \<and> \<not> cached r1 \<and> store_ok s1
      \<and> sha256 healthy = sha256 healthy
      \<and> \<not> exact_read_raises healthy \<and> \<not> hit_read_raises healthy \<and> \<not> hit_update_raises healthy
      \<and> (\<exists>e r2 s2.
            get_exact_match healthy s1
               (generate_query_hash (sha256 healthy) (messages sample_request) (model sample_request))
               ''u1'' = Some e
          \<and> chat_completions healthy s1 sample_request ''u1'' = (Inr r2, s2)
          \<and> cached r2 \<and> cache_type r2 = Some ''exact'' \<and> choices r2 = choices r1
          \<and> map hit_count (filter (\<lambda>r. entry_id r = entry_id e) (cache_entries s2))
              = [hit_count e + 1])"
proof -
  from first_run obtain r1 s1 where
    run: "chat_completions healthy empty_db sample_request ''u1'' = (Inr r1, s1)"
    and miss: "\<not> cached r1" and ok: "store_ok s1" by blast
  have h: "\<not> exact_read_raises healthy" "\<not> hit_read_raises healthy" "\<not> hit_update_raises healthy"
    by (simp_all add: healthy_def)
  from repeat_request_exact_hit [OF run miss ok refl h] run miss ok h show ?thesis
    by (intro exI [of _ r1] exI [of _ s1]) simp
qed

subsection \<open>Store and embedding failures\<close>

text \<open>
  The store step fails after the upstream call has answered: the pipeline answers with
  status 500 and the upstream text is lost.
\<close>

theorem store_failure_fails_request:
  "chat_completions (healthy \<lparr> store_insert_raises := True \<rparr>) empty_db sample_request ''u1''
     = (Inl (HTTPException 500 (Message ''store request failed'')), empty_db)"
  by (simp add: chat_completions_def get_exact_match_no_rows get_semantic_matches_def healthy_def
        on_miss_def sample_request_def startswith_def call_openai_def store_cache_entry_def
        internal_error_def empty_db_def Let_def)

text \<open>
  C3 (amended). On a miss with a model of the \<^verbatim>\<open>gpt\<close> family whose upstream call has
  succeeded, a failure of the store step (its embedding call or its insert) is re-raised
  by \<^verbatim>\<open>store_cache_entry\<close> and turned by \<^verbatim>\<open>chat_completions\<close> into an internal error
  with status 500 carrying the failure text; the upstream response is not returned and
  nothing is written.
\<close>

theorem store_failure:
  assumes "get_exact_match env s (generate_query_hash (sha256 env) (messages request) (model request)) uid = None"
    and "get_semantic_matches env (dumps_messages False (messages request)) uid 0.85 = []"
    and "startswith (model request) ''gpt''"
    and "openai_result env = Some llm"
    and "embed_store env = None \<or> store_insert_raises env"
  shows "chat_completions env s request uid =
           (Inl (HTTPException 500
                  (Message (if embed_store env = None then ''embedding generation failed''
                            else ''store request failed''))), s)"
  using assms
  by (auto simp: chat_completions_def on_miss_def call_openai_def store_cache_entry_def
        internal_error_def Let_def split: option.splits)

theorem store_failure_witness:
  "get_exact_match (healthy \<lparr> store_insert_raises := True \<rparr>) empty_db
      (generate_query_hash (sha256 (healthy \<lparr> store_insert_raises := True \<rparr>))
         (messages sample_request) (model sample_request)) ''u1'' = None
   \<and> get_semantic_matches (healthy \<lparr> store_insert_raises := True \<rparr>)
        (dumps_messages False (messages sample_request)) ''u1'' 0.85 = []
   \<and> startswith (model sample_request) ''gpt''
   \<and> openai_result (healthy \<lparr> store_insert_raises := True \<rparr>) = Some sample_llm
   \<and> store_insert_raises (healthy \<lparr> store_insert_raises := True \<rparr>)
   \<and> chat_completions (healthy \<lparr> store_insert_raises := True \<rparr>) empty_db sample_request ''u1''
       = (Inl (HTTPException 500 (Message ''store request failed'')), empty_db)"
proof -
  let ?env = "healthy \<lparr> store_insert_raises := True \<rparr>"
  have a: "get_exact_match ?env empty_db
      (generate_query_hash (sha256 ?env) (messages sample_request) (model sample_request)) ''u1'' = None"
    by (rule get_exact_match_empty)
  have b: "get_semantic_matches ?env (dumps_messages False (messages sample_request)) ''u1'' 0.85 = []"
    by (simp add: get_semantic_matches_def healthy_def)
  have c: "startswith (model sample_request) ''gpt''"
    by (simp add: startswith_def sample_request_def)
  have d: "openai_result ?env = Some sample_llm" by (simp add: healthy_def)
  have e: "embed_store ?env = None \<or> store_insert_raises ?env" by simp
  have f: "embed_store ?env \<noteq> None" by (simp add: healthy_def)
  from store_failure [OF a b c d e] f a b c d show ?thesis by simp
qed

text \<open>
  The embedding generator is down for the whole request: the semantic lookup degrades
  to no match, but the store step calls the generator again and its failure fails the
  request.
\<close>

theorem embedding_outage_fails_request:
  "chat_completions (healthy \<lparr> embed_lookup := None, embed_store := None \<rparr>) empty_db
       sample_request ''u1''
     = (Inl (HTTPException 500 (Message ''embedding generation failed'')), empty_db)"
  by (simp add: chat_completions_def get_exact_match_no_rows get_semantic_matches_def healthy_def
        on_miss_def sample_request_def startswith_def call_openai_def store_cache_entry_def
        internal_error_def empty_db_def Let_def)

lemma get_exact_match_lookup_fields [simp]:
  "get_exact_match (env \<lparr> embed_lookup := a, match_cache_entries := b \<rparr>) s qh uid
     = get_exact_match env s qh uid"
  by (simp add: get_exact_match_def)

lemma update_hit_count_lookup_fields [simp]:
  "update_hit_count (env \<lparr> embed_lookup := a, match_cache_entries := b \<rparr>) s i
     = update_hit_count env s i"
  by (simp add: update_hit_count_def Let_def split: read.splits)

lemma log_usage_lookup_fields [simp]:
  "log_usage (env \<lparr> embed_lookup := a, match_cache_entries := b \<rparr>) s uid k h t c m ms
     = log_usage env s uid k h t c m ms"
  by (simp add: log_usage_def)

lemma on_miss_lookup_fields [simp]:
  "on_miss (env \<lparr> embed_lookup := a, match_cache_entries := b \<rparr>) s request uid qh qt
     = on_miss env s request uid qh qt"
  by (simp add: on_miss_def call_openai_def call_anthropic_def store_cache_entry_def Let_def
        split: sum.splits error.splits option.splits prod.splits)

text \<open>
  C8 (amended). When embedding generation fails during the semantic lookup,
  \<^verbatim>\<open>get_semantic_matches\<close> answers the empty list and the pipeline goes on exactly as
  if the search had found nothing. On a miss whose upstream call succeeds the request is
  then served uncached provided the store step succeeds, that is provided the second
  embedding call, made by \<^verbatim>\<open>store_cache_entry\<close>, does not fail as well.
\<close>

theorem embedding_failure_in_lookup:
  assumes "embed_lookup env = None"
  shows "get_semantic_matches env qt uid threshold = []
       \<and> chat_completions env s request uid
           = chat_completions (env \<lparr> embed_lookup := Some e,
                                     match_cache_entries := (\<lambda>v t k u. Some []) \<rparr>) s request uid
       \<and> (get_exact_match env s
              (generate_query_hash (sha256 env) (messages request) (model request)) uid = None
            \<and> startswith (model request) ''gpt'' \<and> openai_result env = Some llm
            \<and> embed_store env \<noteq> None \<and> \<not> store_insert_raises env
          \<longrightarrow> (\<exists>r s'. chat_completions env s request uid = (Inr r, s')
                 \<and> \<not> cached r \<and> choices r = [content llm]))"
proof (intro conjI impI)
  show a: "get_semantic_matches env qt uid threshold = []"
    using assms by (simp add: get_semantic_matches_def)
  show "chat_completions env s request uid
           = chat_completions (env \<lparr> embed_lookup := Some e,
                                     match_cache_entries := (\<lambda>v t k u. Some []) \<rparr>) s request uid"
    using assms
    by (simp add: chat_completions_def get_semantic_matches_def Let_def
          split: option.splits list.splits)
next
  assume h: "get_exact_match env s
              (generate_query_hash (sha256 env) (messages request) (model request)) uid = None
            \<and> startswith (model request) ''gpt'' \<and> openai_result env = Some llm
            \<and> embed_store env \<noteq> None \<and> \<not> store_insert_raises env"
  then show "\<exists>r s'. chat_completions env s request uid = (Inr r, s')
                 \<and> \<not> cached r \<and> choices r = [content llm]"
    using assms
    by (auto simp: chat_completions_def get_semantic_matches_def on_miss_def call_openai_def
          store_cache_entry_def Let_def)
qed

theorem embedding_failure_in_lookup_witness:
  "embed_lookup (healthy \<lparr> embed_lookup := None \<rparr>) = None
   \<and> get_exact_match (healthy \<lparr> embed_lookup := None \<rparr>) empty_db
        (generate_query_hash (sha256 (healthy \<lparr> embed_lookup := None \<rparr>))
           (messages sample_request) (model sample_request)) ''u1'' = None
   \<and> startswith (model sample_request) ''gpt''
   \<and> openai_result (healthy \<lparr> embed_lookup := None \<rparr>) = Some sample_llm
   \<and> embed_store (healthy \<lparr> embed_lookup := None \<rparr>) \<noteq> None
   \<and> \<not> store_insert_raises (healthy \<lparr> embed_lookup := None \<rparr>)
   \<and> get_semantic_matches (healthy \<lparr> embed_lookup := None \<rparr>) ''q'' ''u1'' 0.85 = []
   \<and> (\<exists>r s'. chat_completions (healthy \<lparr> embed_lookup := None \<rparr>) empty_db sample_request ''u1''
                = (Inr r, s')
             \<and> \<not> cached r \<and> choices r = [content sample_llm])"
proof -
  let ?env = "healthy \<lparr> embed_lookup := None \<rparr>"
  have a: "embed_lookup ?env = None" by simp
  have b: "get_exact_match ?env empty_db
        (generate_query_hash (sha256 ?env) (messages sample_request) (model sample_request))
        ''u1'' = None"
    by (rule get_exact_match_empty)
  have c: "startswith (model sample_request) ''gpt''"
    by (simp add: startswith_def sample_request_def)
  have d: "openai_result ?env = Some sample_llm" "embed_store ?env \<noteq> None"
    "\<not> store_insert_raises ?env"
    by (simp_all add: healthy_def)
  note th = embedding_failure_in_lookup
         [OF a, of "''q''" "''u1''" "0.85" empty_db sample_request "[]" sample_llm]
  have sem: "get_semantic_matches ?env ''q'' ''u1'' 0.85 = []"
    by (rule conjunct1 [OF th])
  have served: "\<exists>r s'. chat_completions ?env empty_db sample_request ''u1'' = (Inr r, s')
                   \<and> \<not> cached r \<and> choices r = [content sample_llm]"
    by (rule mp [OF conjunct2 [OF conjunct2 [OF th]]]) (intro conjI b c d)
  from a b c d sem served show ?thesis by (intro conjI)
qed

subsection \<open>Usage log and statistics\<close>

lemma usage_logs_update_hit_count [simp]:
  "usage_logs (update_hit_count env s i) = usage_logs s"
  by (simp add: update_hit_count_def Let_def split: read.splits)

lemma usage_logs_store_cache_entry:
  "store_cache_entry env s uid qh qt resp m tokens cst = (r, s') \<Longrightarrow> usage_logs s' = usage_logs s"
  by (auto simp: store_cache_entry_def Let_def split: option.splits if_splits)

lemma hits_cost_nothing_log_usage_hit:
  "hits_cost_nothing (usage_logs s) \<Longrightarrow>
   hits_cost_nothing (usage_logs (log_usage env s uid k True 0 0 m ms))"
  by (simp add: log_usage_def hits_cost_nothing_def)

lemma hits_cost_nothing_log_usage_miss:
  "hits_cost_nothing (usage_logs s) \<Longrightarrow>
   hits_cost_nothing (usage_logs (log_usage env s uid k False t c m ms))"
  by (simp add: log_usage_def hits_cost_nothing_def)

lemma hits_cost_nothing_on_miss:
  assumes "hits_cost_nothing (usage_logs s)" and "on_miss env s request uid qh qt = (r, s')"
  shows "hits_cost_nothing (usage_logs s')"
  using assms
  by (auto simp: on_miss_def Let_def hits_cost_nothing_log_usage_miss
           split: sum.splits error.splits prod.splits if_splits
           dest!: usage_logs_store_cache_entry)

lemma hits_cost_nothing_chat_completions:
  assumes "hits_cost_nothing (usage_logs s)" and "chat_completions env s request uid = (r, s')"
  shows "hits_cost_nothing (usage_logs s')"
  using assms
  by (auto simp: chat_completions_def Let_def hits_cost_nothing_log_usage_hit
           split: option.splits list.splits dest: hits_cost_nothing_on_miss)

lemma usage_logs_increment_usage [simp]:
  "usage_logs (increment_usage uenv s uid n hit) = usage_logs s"
  by (simp add: increment_usage_def split: read.splits)

lemma hits_cost_nothing_log_detailed_usage:
  "hits_cost_nothing (usage_logs s) \<Longrightarrow>
   hits_cost_nothing (usage_logs (log_detailed_usage raises s uid k hit t c ms code))"
  by (simp add: log_detailed_usage_def hits_cost_nothing_def)

lemma hits_cost_nothing_track_usage:
  "hits_cost_nothing (usage_logs s) \<Longrightarrow>
   hits_cost_nothing (usage_logs (track_usage uenv raises s uid k hit t c ms code))"
  by (auto simp: track_usage_def call_increment_usage_def hits_cost_nothing_log_detailed_usage
           split: sum.splits if_splits option.splits pyarg.splits)

lemma reachable_hits_cost_nothing: "reachable s \<Longrightarrow> hits_cost_nothing (usage_logs s)"
proof (induction rule: reachable.induct)
  case (start s)
  then show ?case by (simp add: hits_cost_nothing_def)
next
  case (served s env request uid r s')
  then show ?case by (blast intro: hits_cost_nothing_chat_completions)
next
  case (counted s uenv uid n hit)
  then show ?case by simp
next
  case (tracked s uenv raises uid key_id hit tokens cst ms code)
  from tracked.IH show ?case by (rule hits_cost_nothing_track_usage)
next
  case (logged s raises uid key_id hit tokens cst ms code)
  from logged.IH show ?case by (rule hits_cost_nothing_log_detailed_usage)
qed

lemma hits_cost_nothing_filter:
  "hits_cost_nothing logs \<Longrightarrow> hits_cost_nothing (filter P logs)"
  by (induction logs) (auto simp: hits_cost_nothing_def)

lemma hits_cost_nothing_sums:
  "hits_cost_nothing logs \<Longrightarrow>
   sum_list (map tokens_used (filter cache_hit logs)) = 0
   \<and> sum_list (map cost (filter cache_hit logs)) = 0"
  by (induction logs) (auto simp: hits_cost_nothing_def)

text \<open>
  C10. In every state the core can reach from an empty usage log, each log entry of a
  cache hit has \<^verbatim>\<open>tokens_used = 0\<close> and \<^verbatim>\<open>cost = 0\<close>; so the statistics endpoint
  reports \<^verbatim>\<open>total_tokens_saved = 0\<close> and \<^verbatim>\<open>total_cost_saved = 0\<close> for every owner,
  and \<^verbatim>\<open>cache_hit_rate = 0\<close> when the owner has no logged request.
\<close>

theorem hit_savings_are_zero:
  assumes "reachable s" and "\<not> stats_read_raises env"
  shows "(\<forall>l \<in> set (usage_logs s). cache_hit l \<longrightarrow> tokens_used l = 0 \<and> cost l = 0)
       \<and> (\<exists>st. get_cache_stats env s uid = Inr st
             \<and> total_tokens_saved st = 0 \<and> total_cost_saved st = 0
             \<and> (filter (\<lambda>l. log_user_id l = uid) (usage_logs s) = [] \<longrightarrow> cache_hit_rate st = 0))"
proof -
  from assms(1) have inv: "hits_cost_nothing (usage_logs s)"
    by (rule reachable_hits_cost_nothing)
  then have a: "\<forall>l \<in> set (usage_logs s). cache_hit l \<longrightarrow> tokens_used l = 0 \<and> cost l = 0"
    by (auto simp: hits_cost_nothing_def list_all_iff)
  from inv have "hits_cost_nothing (filter (\<lambda>l. log_user_id l = uid) (usage_logs s))"
    by (rule hits_cost_nothing_filter)
  from hits_cost_nothing_sums [OF this] assms(2) have
    "\<exists>st. get_cache_stats env s uid = Inr st
        \<and> total_tokens_saved st = 0 \<and> total_cost_saved st = 0
        \<and> (filter (\<lambda>l. log_user_id l = uid) (usage_logs s) = [] \<longrightarrow> cache_hit_rate st = 0)"
    by (simp add: get_cache_stats_def Let_def)
  with a show ?thesis by blast
qed

lemma after_miss_eq:
  "after_miss = \<lparr> cache_entries =
       [\<lparr> entry_id = 0, user_id = ''u1'',
          query_hash = generate_query_hash (\<lambda>s. s) (messages sample_request) ''gpt-4'',
          query_text = dumps_messages False (messages sample_request),
          query_embedding = [1, 0], response_text = ''Paris'', model_used = ''gpt-4'',
          tokens_saved = 15, cost_saved = 15 * (0.002 / 1000), expires_at = 86400,
          hit_count = 0 \<rparr>],
     usage_logs =
       [\<lparr> log_user_id = ''u1'', api_key_id = None, cache_hit = False, tokens_used = 15,
          cost = 15 * (0.002 / 1000), log_model_used = Some ''gpt-4'', response_time_ms = 7,
          status_code = None \<rparr>],
     monthly_usage = [], next_id = 1 \<rparr>"
  by (simp add: after_miss_def chat_completions_def get_exact_match_no_rows
        get_semantic_matches_def healthy_def on_miss_def sample_request_def startswith_def
        call_openai_def store_cache_entry_def log_usage_def sample_llm_def empty_db_def Let_def)

lemma usage_logs_after_hit:
  "usage_logs after_hit =
     [\<lparr> log_user_id = ''u1'', api_key_id = None, cache_hit = False, tokens_used = 15,
        cost = 15 * (0.002 / 1000), log_model_used = Some ''gpt-4'', response_time_ms = 7,
        status_code = None \<rparr>,
      \<lparr> log_user_id = ''u1'', api_key_id = None, cache_hit = True, tokens_used = 0,
        cost = 0, log_model_used = Some ''gpt-4'', response_time_ms = 7,
        status_code = None \<rparr>]"
  by (simp add: after_hit_def after_miss_eq chat_completions_def get_exact_match_def
        execute_single_def single_def healthy_def sample_request_def log_usage_def Let_def)

lemma reachable_after_hit: "reachable after_hit"
proof -
  have "reachable empty_db" by (rule reachable.start) (simp add: empty_db_def)
  then have "reachable after_miss"
    unfolding after_miss_def by (rule reachable.served) (rule surjective_pairing)
  then show ?thesis
    unfolding after_hit_def by (rule reachable.served) (rule surjective_pairing)
qed

theorem hit_savings_are_zero_witness:
  "reachable after_hit \<and> \<not> stats_read_raises healthy
   \<and> (\<exists>l \<in> set (usage_logs after_hit). cache_hit l)
   \<and> (\<exists>st. get_cache_stats healthy after_hit ''u1'' = Inr st
          \<and> total_tokens_saved st = 0 \<and> total_cost_saved st = 0)
   \<and> (\<exists>st. get_cache_stats healthy after_hit ''nobody'' = Inr st \<and> cache_hit_rate st = 0)"
proof -
  have nr: "\<not> stats_read_raises healthy" by (simp add: healthy_def)
  have hit: "\<exists>l \<in> set (usage_logs after_hit). cache_hit l"
    by (simp add: usage_logs_after_hit)
  have none: "filter (\<lambda>l. log_user_id l = ''nobody'') (usage_logs after_hit) = []"
    by (simp add: usage_logs_after_hit)
  from hit_savings_are_zero [OF reachable_after_hit nr, of "''u1''"]
  have a: "\<exists>st. get_cache_stats healthy after_hit ''u1'' = Inr st
          \<and> total_tokens_saved st = 0 \<and> total_cost_saved st = 0" by blast
  from hit_savings_are_zero [OF reachable_after_hit nr, of "''nobody''"] none
  have b: "\<exists>st. get_cache_stats healthy after_hit ''nobody'' = Inr st \<and> cache_hit_rate st = 0"
    by blast
  from reachable_after_hit nr hit a b show ?thesis by (intro conjI)
qed

subsection \<open>Usage accounting\<close>

text \<open>
  C9. The middleware records a cache hit (120 tokens and 0.5 saved) for an owner who has
  a row for the month. \<^verbatim>\<open>_track_usage\<close> passes the keywords \<^verbatim>\<open>is_cache_hit\<close>,
  \<^verbatim>\<open>tokens_saved\<close> and \<^verbatim>\<open>cost_saved\<close>, which \<^verbatim>\<open>increment_usage\<close> does not take:
  the call raises, the handler swallows it, and the row is left as it was. Called with
  its own parameters, \<^verbatim>\<open>increment_usage\<close> bumps \<^verbatim>\<open>requests_used\<close> and
  \<^verbatim>\<open>cache_hits\<close> but has no way to add to the tokens-saved and cost-saved totals.
\<close>

theorem tracked_hit_not_recorded:
  "track_usage january False usage_db ''u1'' None True 120 (1 / 2) 10 200 = usage_db
   \<and> monthly_usage (increment_usage january usage_db ''u1'' 1 True)
       = [\<lparr> mu_id = 0, mu_user_id = ''u1'', month_year = ''2025-01'',
            requests_used = 4, cache_hits = 2, cache_misses = 2,
            mu_tokens_saved = 0, mu_cost_saved = 0 \<rparr>]"
  by (simp add: track_usage_def call_increment_usage_def increment_usage_params_def
        increment_usage_def january_def usage_db_def execute_single_def single_def)

subsection \<open>Rate limiting\<close>

lemma check_rate_limit_allows: "check_rate_limit u t counts = (True, counts)"
  by (simp add: check_rate_limit_def get_subscription_details_def getattr_subscription_service_def
        subscription_service_methods_def check_rate_limit_body_def)

lemma run_checks_check_rate_limit:
  "run_checks check_rate_limit u ts counts = (replicate (length ts) True, counts)"
  by (induction ts arbitrary: counts) (simp_all add: check_rate_limit_allows)

text \<open>
  C4. An owner sends eleven requests within one minute. \<^verbatim>\<open>_check_rate_limit\<close> starts
  by calling \<^verbatim>\<open>subscription_service.get_subscription_details\<close>, which class
  \<^verbatim>\<open>SubscriptionService\<close> does not define; the \<^verbatim>\<open>AttributeError\<close> is caught by
  ``Allow on error'', so every check answers \<^verbatim>\<open>True\<close>, the counter table is never
  written and the eleventh request is forwarded like the first.
\<close>

theorem eleventh_request_admitted:
  "run_checks check_rate_limit ''u1'' (replicate 11 30) Map.empty = (replicate 11 True, Map.empty)
   \<and> rate_limit_dispatch (Some ''u1'') 30 Map.empty = (Forwarded, Map.empty)"
  by (simp add: run_checks_check_rate_limit rate_limit_dispatch_def rate_limit_dispatch_with_def
        check_rate_limit_allows)

subsection \<open>The counter logic, given subscription details\<close>

text \<open>
  Had the service answered with the owner's plan, the body of \<^verbatim>\<open>_check_rate_limit\<close>
  would admit exactly the first \<open>n\<close> checks of a minute, deny the next one, and admit
  again in the following minute, and the middleware would answer a denial with status
  429 and \<^verbatim>\<open>Retry-After: 60\<close>.
\<close>

lemma rate_limit_of_cases: "rate_limit_of pname = -1 \<or> 0 < rate_limit_of pname"
  by (simp add: rate_limit_of_def rate_limits_def)

lemma body_step:
  assumes "rate_limit_of pname \<noteq> -1" and "current_minute_of t = cm"
  shows "check_rate_limit_body (Inr (Some pname)) u t c =
           (if rate_limit_of pname \<le> count_of c (u, cm) then (False, c)
            else (True, (\<lambda>k. if snd k < cm - 1 then None
                              else (c((u, cm) \<mapsto> count_of c (u, cm) + 1)) k)))"
  using assms by (auto simp: check_rate_limit_body_def count_of_def Let_def split: option.splits)

lemma body_step_count:
  assumes "rate_limit_of pname \<noteq> -1" and "current_minute_of t = cm"
  shows "count_of (snd (check_rate_limit_body (Inr (Some pname)) u t c)) (u, cm)
           = (if rate_limit_of pname \<le> count_of c (u, cm) then count_of c (u, cm)
              else count_of c (u, cm) + 1)"
  by (simp add: body_step [OF assms] count_of_def)

lemma body_step_next:
  assumes "rate_limit_of pname \<noteq> -1" and "current_minute_of t = cm"
  shows "snd (check_rate_limit_body (Inr (Some pname)) u t c) (u, cm + 1) = c (u, cm + 1)"
  by (simp add: body_step [OF assms])

lemma run_same_bucket:
  assumes "rate_limit_of pname \<noteq> -1" and "\<forall>t \<in> set ts. current_minute_of t = cm"
  shows "fst (run_checks (check_rate_limit_body (Inr (Some pname))) u ts c)
           = map (\<lambda>i. count_of c (u, cm) + int i < rate_limit_of pname) [0..<length ts]
       \<and> count_of (snd (run_checks (check_rate_limit_body (Inr (Some pname))) u ts c)) (u, cm)
           = min (max (rate_limit_of pname) (count_of c (u, cm))) (count_of c (u, cm) + int (length ts))
       \<and> snd (run_checks (check_rate_limit_body (Inr (Some pname))) u ts c) (u, cm + 1)
           = c (u, cm + 1)"
  using assms(2)
proof (induction ts arbitrary: c)
  case Nil
  then show ?case using rate_limit_of_cases [of pname] assms(1) by (simp add: min_def max_def)
next
  case (Cons t ts)
  let ?chk = "check_rate_limit_body (Inr (Some pname))"
  let ?c' = "snd (?chk u t c)"
  from Cons.prems have t: "current_minute_of t = cm" and ts: "\<forall>t \<in> set ts. current_minute_of t = cm"
    by simp_all
  note IH = Cons.IH [OF ts, of ?c']
  have ok: "fst (?chk u t c) = (count_of c (u, cm) < rate_limit_of pname)"
    by (simp add: body_step [OF assms(1) t])
  have cnt: "count_of ?c' (u, cm) = (if rate_limit_of pname \<le> count_of c (u, cm)
                                     then count_of c (u, cm) else count_of c (u, cm) + 1)"
    by (rule body_step_count [OF assms(1) t])
  have nxt: "?c' (u, cm + 1) = c (u, cm + 1)"
    by (rule body_step_next [OF assms(1) t])
  have run: "run_checks ?chk u (t # ts) c
               = (fst (?chk u t c) # fst (run_checks ?chk u ts ?c'), snd (run_checks ?chk u ts ?c'))"
    by (simp add: case_prod_unfold Let_def)
  have upt: "map (\<lambda>i. count_of c (u, cm) + int i < rate_limit_of pname) [0..<length (t # ts)]
        = (count_of c (u, cm) < rate_limit_of pname)
          # map (\<lambda>i. count_of c (u, cm) + 1 + int i < rate_limit_of pname) [0..<length ts]"
    by (simp add: upt_conv_Cons map_Suc_upt [symmetric] algebra_simps del: upt_Suc)
  show ?case
  proof (cases "rate_limit_of pname \<le> count_of c (u, cm)")
    case True
    with cnt have c': "count_of ?c' (u, cm) = count_of c (u, cm)" by simp
    from True have all: "\<And>i. \<not> count_of c (u, cm) + int i < rate_limit_of pname" by simp
    from IH c' nxt True show ?thesis
      unfolding run by (simp add: ok all min_def max_def map_replicate_const replicate_append_same)
  next
    case False
    with cnt have c': "count_of ?c' (u, cm) = count_of c (u, cm) + 1" by simp
    from IH c' nxt False show ?thesis
      unfolding run upt by (auto simp: ok min_def max_def)
  qed
qed

lemma run_checks_append:
  "run_checks chk u (ts @ ts') c =
     (fst (run_checks chk u ts c) @ fst (run_checks chk u ts' (snd (run_checks chk u ts c))),
      snd (run_checks chk u ts' (snd (run_checks chk u ts c))))"
  by (induction ts arbitrary: c) (simp_all add: case_prod_unfold Let_def)

lemma rate_limit_logic:
  assumes "rate_limit_of pname = n" and "n \<noteq> -1"
    and "\<forall>t \<in> set ts. current_minute_of t = cm" and "length ts = nat n + 1"
    and "current_minute_of t' = cm + 1"
    and "c (u, cm) = None" and "c (u, cm + 1) = None"
  shows "fst (run_checks (check_rate_limit_body (Inr (Some pname))) u (ts @ [t']) c)
           = replicate (nat n) True @ [False, True]"
proof -
  let ?chk = "check_rate_limit_body (Inr (Some pname))"
  let ?c1 = "snd (run_checks ?chk u ts c)"
  from assms(1,2) have ne: "rate_limit_of pname \<noteq> -1" by simp
  from rate_limit_of_cases [of pname] assms(1,2) have pos: "0 < n" by simp
  from assms(6) have k0: "count_of c (u, cm) = 0" by (simp add: count_of_def)
  note R = run_same_bucket [OF ne assms(3), of u c]
  have a: "fst (run_checks ?chk u ts c) = map (\<lambda>i. int i < n) [0..<nat n + 1]"
    using R k0 assms(1,4) by simp
  have "map (\<lambda>i. int i < n) [0..<nat n + 1] = replicate (nat n) True @ [False]"
  proof -
    have "map (\<lambda>i. int i < n) [0..<nat n] = map (\<lambda>i. True) [0..<nat n]"
      by (rule map_cong) auto
    then show ?thesis using pos by (simp add: map_replicate_const)
  qed
  with a have a': "fst (run_checks ?chk u ts c) = replicate (nat n) True @ [False]" by simp
  from R assms(7) have nx: "?c1 (u, cm + 1) = None" by simp
  then have "count_of ?c1 (u, cm + 1) = 0" by (simp add: count_of_def)
  then have b: "fst (?chk u t' ?c1) = True"
    using pos assms(1) by (simp add: body_step [OF ne assms(5)])
  show ?thesis
    by (simp add: run_checks_append a' case_prod_unfold Let_def b)
qed

lemma rate_limit_dispatch_denied:
  assumes "fst (check u t c) = False"
  shows "fst (rate_limit_dispatch_with check (Some u) t c)
           = JSONResponse 429 ''RATE_LIMIT_EXCEEDED'' [(''Retry-After'', ''60'')]"
  using assms by (simp add: rate_limit_dispatch_with_def case_prod_unfold)

subsection \<open>Read failures in the admission checks\<close>

text \<open>
  Two read failures that end in a denial. The user-level feature read raises:
  \<^verbatim>\<open>has_feature\<close> answers \<^verbatim>\<open>False\<close> and the gated path is refused with 403. Every
  subscription read raises for an owner with 5000 requests this month: the quota check
  falls back to the free plan with its limit of 1000 and refuses with 429.
\<close>

theorem read_failure_denies:
  "feature_gate_dispatch ((plan_env (named_plan ''business'' None) (Data 0)) \<lparr> feature_read := Raises \<rparr>)
       (Some ''u1'') ''/api/teams/42''
     = JSONResponse 403 ''FEATURE_NOT_AVAILABLE'' []
   \<and> check_usage_limit (outage_env (Data 5000))
     = Inl (HTTPException 429 (UsageDetail ''Monthly limit exceeded'' 5000 (Some 1000) ''/pricing''))"
  by (simp add: feature_gate_dispatch_def feature_requirements_def startswith_def has_feature_def
        has_feature_body_def plan_env_def named_plan_def empty_plan_def get_user_subscription_def
        plan_of_def check_usage_limit_def check_usage_limits_def outage_env_def
        assign_free_plan_def fallback_subscription_def Let_def)

lemma get_user_subscription_read_fails:
  "sub_read env = Raises \<Longrightarrow> free_plan_read env = Raises \<Longrightarrow>
   get_user_subscription env = fallback_subscription"
  by (simp add: get_user_subscription_def assign_free_plan_def)

text \<open>
  C5 (amended). The quota check fails open when the usage read raises (or the joined plan
  is \<^verbatim>\<open>null\<close>): \<^verbatim>\<open>check_usage_limits\<close> reports \<^verbatim>\<open>within_limits\<close> and the request
  is admitted. The rate check admits on any exception. The feature check fails closed:
  when its body raises, \<^verbatim>\<open>has_feature\<close> answers \<^verbatim>\<open>False\<close> and a gated path is
  refused with 403. A subscription that cannot be read is replaced by the free-plan
  fallback with limit 1000, so the quota check then admits below 1000 requests and
  refuses from 1000 on.
\<close>

theorem read_failures:
  shows "(usage_read env = Raises \<or> subscription_plans (get_user_subscription env) = Null \<longrightarrow>
            within_limits (check_usage_limits env)
          \<and> check_usage_limit env = Inr \<lparr> allow = True, gate_overage = False, overage_amount = None \<rparr>)
       \<and> check_rate_limit_body (Inl e) u t counts = (True, counts)
       \<and> (has_feature_body env f = Inl e' \<longrightarrow>
            \<not> has_feature env f
          \<and> (required_feature feature_requirements path = Some f \<longrightarrow>
               feature_gate_dispatch env (Some u) path = JSONResponse 403 ''FEATURE_NOT_AVAILABLE'' []))
       \<and> (sub_read env = Raises \<and> free_plan_read env = Raises \<and> usage_read env = Data n \<longrightarrow>
            check_usage_limit env =
              (if n < 1000 then Inr \<lparr> allow = True, gate_overage = False, overage_amount = None \<rparr>
               else Inl (HTTPException 429
                           (UsageDetail ''Monthly limit exceeded'' n (Some 1000) ''/pricing''))))"
proof (intro conjI impI)
  assume "usage_read env = Raises \<or> subscription_plans (get_user_subscription env) = Null"
  then have on_error: "check_usage_limits env
      = \<lparr> within_limits = True, current_usage = 0, monthly_limit = Some 1000, overage = 0,
          plan_name = Some ''free'' \<rparr>"
    by (auto simp: check_usage_limits_def plan_of_def Let_def split: field.splits read.splits)
  then show "within_limits (check_usage_limits env)" by simp
  from on_error show "check_usage_limit env
      = Inr \<lparr> allow = True, gate_overage = False, overage_amount = None \<rparr>"
    by (simp add: check_usage_limit_def)
next
  show "check_rate_limit_body (Inl e) u t counts = (True, counts)"
    by (simp add: check_rate_limit_body_def)
next
  assume b: "has_feature_body env f = Inl e'"
  then show nf: "\<not> has_feature env f" by (simp add: has_feature_def)
  assume "required_feature feature_requirements path = Some f"
  with nf show "feature_gate_dispatch env (Some u) path = JSONResponse 403 ''FEATURE_NOT_AVAILABLE'' []"
    by (simp add: feature_gate_dispatch_def)
next
  assume "sub_read env = Raises \<and> free_plan_read env = Raises \<and> usage_read env = Data n"
  then show "check_usage_limit env =
              (if n < 1000 then Inr \<lparr> allow = True, gate_overage = False, overage_amount = None \<rparr>
               else Inl (HTTPException 429
                           (UsageDetail ''Monthly limit exceeded'' n (Some 1000) ''/pricing'')))"
    by (simp add: check_usage_limit_def check_usage_limits_def get_user_subscription_read_fails
          fallback_subscription_def plan_of_def empty_plan_def Let_def)
qed

theorem read_failures_witness:
  "usage_read (plan_env (named_plan ''free'' (Some 1000)) Raises) = Raises
   \<and> check_usage_limit (plan_env (named_plan ''free'' (Some 1000)) Raises)
       = Inr \<lparr> allow = True, gate_overage = False, overage_amount = None \<rparr>
   \<and> check_rate_limit_body (Inl AttributeError) ''u1'' 30 Map.empty = (True, Map.empty)
   \<and> has_feature_body ((plan_env (named_plan ''business'' None) (Data 0)) \<lparr> feature_read := Raises \<rparr>)
         ''team_collaboration'' = Inl BackendError
   \<and> required_feature feature_requirements ''/api/teams/42'' = Some ''team_collaboration''
   \<and> feature_gate_dispatch ((plan_env (named_plan ''business'' None) (Data 0)) \<lparr> feature_read := Raises \<rparr>)
         (Some ''u1'') ''/api/teams/42'' = JSONResponse 403 ''FEATURE_NOT_AVAILABLE'' []
   \<and> sub_read (outage_env (Data 5000)) = Raises \<and> free_plan_read (outage_env (Data 5000)) = Raises
   \<and> usage_read (outage_env (Data 5000)) = Data 5000
   \<and> check_usage_limit (outage_env (Data 5000))
       = Inl (HTTPException 429 (UsageDetail ''Monthly limit exceeded'' 5000 (Some 1000) ''/pricing''))"
proof -
  let ?e1 = "plan_env (named_plan ''free'' (Some 1000)) Raises"
  let ?e2 = "(plan_env (named_plan ''business'' None) (Data 0)) \<lparr> feature_read := Raises \<rparr>"
  let ?e3 = "outage_env (Data 5000)"
  have u1: "usage_read ?e1 = Raises" by (simp add: plan_env_def)
  have f2: "has_feature_body ?e2 ''team_collaboration'' = Inl BackendError"
    by (simp add: has_feature_body_def plan_env_def named_plan_def empty_plan_def
          get_user_subscription_def plan_of_def)
  have r2: "required_feature feature_requirements ''/api/teams/42'' = Some ''team_collaboration''"
    by (simp add: feature_requirements_def startswith_def)
  have o3: "sub_read ?e3 = Raises" "free_plan_read ?e3 = Raises" "usage_read ?e3 = Data 5000"
    by (simp_all add: outage_env_def)
  note a = read_failures
    [of ?e1 AttributeError "''u1''" 30 Map.empty "''team_collaboration''" BackendError
        "''/api/teams/42''" 0]
  note b = read_failures
    [of ?e2 AttributeError "''u1''" 30 Map.empty "''team_collaboration''" BackendError
        "''/api/teams/42''" 0]
  note c = read_failures
    [of ?e3 AttributeError "''u1''" 30 Map.empty "''team_collaboration''" BackendError
        "''/api/teams/42''" 5000]
  from a u1 have q: "check_usage_limit ?e1
       = Inr \<lparr> allow = True, gate_overage = False, overage_amount = None \<rparr>" by blast
  from a have rt: "check_rate_limit_body (Inl AttributeError) ''u1'' 30 Map.empty = (True, Map.empty)"
    by blast
  from b f2 r2 have g: "feature_gate_dispatch ?e2 (Some ''u1'') ''/api/teams/42''
       = JSONResponse 403 ''FEATURE_NOT_AVAILABLE'' []" by blast
  from c o3 have d: "check_usage_limit ?e3
       = Inl (HTTPException 429 (UsageDetail ''Monthly limit exceeded'' 5000 (Some 1000) ''/pricing''))"
    by simp
  from u1 q rt f2 r2 g o3 d show ?thesis by (intro conjI)
qed

subsection \<open>The cache key\<close>

lemma same_keys_same_list:
  assumes "map fst xs = map fst ys" and "set xs = set ys" and "distinct (map fst xs)"
  shows "xs = ys"
proof (rule nth_equalityI)
  from assms(1) show len: "length xs = length ys" by (metis length_map)
  fix i assume i: "i < length xs"
  from assms(3) have inj: "inj_on fst (set xs)" by (simp add: distinct_map)
  from i have a: "xs ! i \<in> set xs" by simp
  from i len assms(2) have b: "ys ! i \<in> set xs" by simp
  from assms(1) i len have "fst (xs ! i) = fst (ys ! i)"
    by (metis nth_map)
  with inj a b show "xs ! i = ys ! i" by (auto dest: inj_onD)
qed

lemma sort_key_same_dict:
  assumes "same_dict a b"
  shows "sort_key fst a = sort_key fst b"
proof -
  from assms have da: "distinct (map fst a)" and db: "distinct (map fst b)"
    and m: "map_of a = map_of b" by (simp_all add: same_dict_def)
  from m da db have s: "set a = set b" by (simp add: map_of_inject_set)
  have ka: "distinct (map fst (sort_key fst a))"
    using da by (metis distinct_map distinct_sort set_sort)
  have kb: "distinct (map fst (sort_key fst b))"
    using db by (metis distinct_map distinct_sort set_sort)
  have "set (map fst (sort_key fst a)) = set (map fst (sort_key fst b))"
    using s by simp
  with ka kb have "map fst (sort_key fst a) = map fst (sort_key fst b)"
    by (intro sorted_distinct_set_unique) (simp_all add: sorted_sort_key)
  moreover have "set (sort_key fst a) = set (sort_key fst b)" using s by simp
  ultimately show ?thesis using ka by (rule same_keys_same_list)
qed

lemma dumps_messages_same:
  "list_all2 same_dict ms ms' \<Longrightarrow> dumps_messages True ms = dumps_messages True ms'"
proof -
  assume "list_all2 same_dict ms ms'"
  then have "map (dumps_message True) ms = map (dumps_message True) ms'"
    by (induction rule: list_all2_induct) (simp_all add: dumps_message_def sort_key_same_dict)
  then show ?thesis by (simp add: dumps_messages_def)
qed

lemma two_messages_differ: "query_string two_messages m \<noteq> query_string (rev two_messages) m"
  by (simp add: query_string_def two_messages_def dumps_messages_def dumps_message_def
        dumps_item_def dumps_str_def escape_char_def Let_def)

text \<open>
  C7. The key is a function of the request, and it does not depend on the order of the
  keys inside a message: two message lists that agree position by position as
  dictionaries, with the same model, get the same key. The order of the messages is
  kept: reversing a two-message conversation changes the string that is hashed, hence
  the key whenever the digest does not collide on the two strings.
\<close>

theorem canonical_key:
  "(list_all2 same_dict ms ms' \<longrightarrow> generate_query_hash H ms m = generate_query_hash H ms' m)
   \<and> mset two_messages = mset (rev two_messages)
   \<and> query_string two_messages m \<noteq> query_string (rev two_messages) m
   \<and> (inj_on H {query_string two_messages m, query_string (rev two_messages) m} \<longrightarrow>
        generate_query_hash H two_messages m \<noteq> generate_query_hash H (rev two_messages) m)"
proof (intro conjI impI)
  assume "list_all2 same_dict ms ms'"
  then show "generate_query_hash H ms m = generate_query_hash H ms' m"
    by (simp add: generate_query_hash_def query_string_def dumps_messages_same)
next
  show "mset two_messages = mset (rev two_messages)" by simp
next
  show d: "query_string two_messages m \<noteq> query_string (rev two_messages) m"
    by (rule two_messages_differ)
  assume "inj_on H {query_string two_messages m, query_string (rev two_messages) m}"
  with d show "generate_query_hash H two_messages m \<noteq> generate_query_hash H (rev two_messages) m"
    by (auto simp: generate_query_hash_def dest: inj_onD)
qed

theorem canonical_key_witness:
  "list_all2 same_dict [[(''role'', ''user''), (''content'', ''Hi'')]]
                       [[(''content'', ''Hi''), (''role'', ''user'')]]
   \<and> [[(''role'', ''user''), (''content'', ''Hi'')]] \<noteq> [[(''content'', ''Hi''), (''role'', ''user'')]]
   \<and> generate_query_hash (\<lambda>s. s) [[(''role'', ''user''), (''content'', ''Hi'')]] ''gpt-4''
       = generate_query_hash (\<lambda>s. s) [[(''content'', ''Hi''), (''role'', ''user'')]] ''gpt-4''
   \<and> inj_on (\<lambda>s. s) {query_string two_messages ''gpt-4'', query_string (rev two_messages) ''gpt-4''}
   \<and> generate_query_hash (\<lambda>s. s) two_messages ''gpt-4''
       \<noteq> generate_query_hash (\<lambda>s. s) (rev two_messages) ''gpt-4''"
proof -
  have "set [(''role'', ''user''), (''content'', ''Hi'')] = set [(''content'', ''Hi''), (''role'', ''user'')]"
    by auto
  then have "map_of [(''role'', ''user''), (''content'', ''Hi'')]
           = map_of [(''content'', ''Hi''), (''role'', ''user'')]"
    by (subst map_of_inject_set) simp_all
  then have a: "list_all2 same_dict [[(''role'', ''user''), (''content'', ''Hi'')]]
                       [[(''content'', ''Hi''), (''role'', ''user'')]]"
    by (simp add: same_dict_def)
  have b: "[[(''role'', ''user''), (''content'', ''Hi'')]] \<noteq> [[(''content'', ''Hi''), (''role'', ''user'')]]"
    by simp
  have c: "inj_on (\<lambda>s. s) {query_string two_messages ''gpt-4'', query_string (rev two_messages) ''gpt-4''}"
    by (rule inj_onI) simp
  note th = canonical_key [of "[[(''role'', ''user''), (''content'', ''Hi'')]]"
       "[[(''content'', ''Hi''), (''role'', ''user'')]]" "\<lambda>s. s" "''gpt-4''"]
  from th a have d: "generate_query_hash (\<lambda>s. s) [[(''role'', ''user''), (''content'', ''Hi'')]] ''gpt-4''
       = generate_query_hash (\<lambda>s. s) [[(''content'', ''Hi''), (''role'', ''user'')]] ''gpt-4''"
    by blast
  from th c have e: "generate_query_hash (\<lambda>s. s) two_messages ''gpt-4''
       \<noteq> generate_query_hash (\<lambda>s. s) (rev two_messages) ''gpt-4''"
    by blast
  from a b c d e show ?thesis by (intro conjI)
qed

subsection \<open>The table invariant is kept\<close>

text \<open>
  Serving a request keeps the cache table within its invariant as long as the exact
  read does not fail. (A failed exact read of a stored request is taken for a miss and
  stores the request a second time.)
\<close>

lemma update_hit_count_keys:
  "map entry_id (cache_entries (update_hit_count env s i)) = map entry_id (cache_entries s)
   \<and> map (\<lambda>r. (user_id r, query_hash r)) (cache_entries (update_hit_count env s i))
       = map (\<lambda>r. (user_id r, query_hash r)) (cache_entries s)
   \<and> next_id (update_hit_count env s i) = next_id s"
  by (auto simp: update_hit_count_def Let_def split: read.splits)

lemma log_usage_next_id [simp]: "next_id (log_usage env s uid k h t c m ms) = next_id s"
  by (simp add: log_usage_def)

lemma store_ok_hit:
  assumes "store_ok s" and "ids_fresh s"
  shows "store_ok (log_usage env (update_hit_count env s i) uid k h t c m ms)
       \<and> ids_fresh (log_usage env (update_hit_count env s i) uid k h t c m ms)"
proof -
  have "list_all (\<lambda>r. entry_id r < next_id s) (cache_entries (update_hit_count env s i))
        = list_all (\<lambda>x. x < next_id s) (map entry_id (cache_entries (update_hit_count env s i)))"
    by (simp add: list_all_iff)
  also have "\<dots> = list_all (\<lambda>r. entry_id r < next_id s) (cache_entries s)"
    by (simp add: update_hit_count_keys list_all_iff)
  finally show ?thesis
    using assms by (simp add: store_ok_def ids_fresh_def update_hit_count_keys)
qed

lemma get_exact_match_None_no_rows:
  assumes "get_exact_match env s qh uid = None" and "\<not> exact_read_raises env"
    and "distinct (map (\<lambda>r. (user_id r, query_hash r)) (cache_entries s))"
  shows "(uid, qh) \<notin> set (map (\<lambda>r. (user_id r, query_hash r)) (cache_entries s))"
proof
  assume "(uid, qh) \<in> set (map (\<lambda>r. (user_id r, query_hash r)) (cache_entries s))"
  then obtain e where "e \<in> set (cache_entries s)" "query_hash e = qh" "user_id e = uid" by auto
  from get_exact_match_unique [OF assms(3) this assms(2)] assms(1) show False by simp
qed

lemma store_ok_on_miss:
  assumes "store_ok s" and "ids_fresh s"
    and "(uid, qh) \<notin> set (map (\<lambda>r. (user_id r, query_hash r)) (cache_entries s))"
    and "on_miss env s request uid qh qt = (r, s')"
  shows "store_ok s' \<and> ids_fresh s'"
proof (cases "\<exists>row s1. store_cache_entry env s uid qh qt
          (content (the (openai_result env))) (model request)
          (total_tokens (the (openai_result env)))
          (real_of_int (total_tokens (the (openai_result env))) * (0.002 / 1000)) = (Inr row, s1)
        \<and> s' = log_usage env s1 uid None False (total_tokens (the (openai_result env)))
          (real_of_int (total_tokens (the (openai_result env))) * (0.002 / 1000))
          (model request) (elapsed_ms env)")
  case True
  then obtain row s1 where st: "store_cache_entry env s uid qh qt
          (content (the (openai_result env))) (model request)
          (total_tokens (the (openai_result env)))
          (real_of_int (total_tokens (the (openai_result env))) * (0.002 / 1000)) = (Inr row, s1)"
    and s': "cache_entries s' = cache_entries s1" "next_id s' = next_id s1" by auto
  from store_cache_entry_Inr [OF st] have ce: "cache_entries s1 = cache_entries s @ [row]"
    and row: "user_id row = uid" "query_hash row = qh" "entry_id row = next_id s" by simp_all
  from st have nx: "next_id s1 = next_id s + 1"
    by (auto simp: store_cache_entry_def Let_def split: option.splits if_splits)
  from assms(2) have "next_id s \<notin> set (map entry_id (cache_entries s))"
    by (auto simp: ids_fresh_def list_all_iff)
  with assms(1,3) have "store_ok s'"
    by (simp add: store_ok_def s' ce row)
  moreover from assms(2) have "ids_fresh s'"
    by (auto simp: ids_fresh_def s' ce row nx list_all_iff)
  ultimately show ?thesis ..
next
  case False
  with assms(4) have "s' = s"
    by (auto simp: on_miss_def Let_def call_openai_def call_anthropic_def store_cache_entry_def
             split: sum.splits error.splits prod.splits if_splits option.splits)
  with assms(1,2) show ?thesis by simp
qed

lemma store_ok_chat_completions:
  assumes "store_ok s" and "ids_fresh s" and "\<not> exact_read_raises env"
    and "chat_completions env s request uid = (r, s')"
  shows "store_ok s' \<and> ids_fresh s'"
proof -
  let ?qh = "generate_query_hash (sha256 env) (messages request) (model request)"
  show ?thesis
  proof (cases "get_exact_match env s ?qh uid")
    case (Some e)
    with assms(4) store_ok_hit [OF assms(1,2)] show ?thesis
      by (auto simp: chat_completions_def Let_def)
  next
    case None
    from assms(1) have "distinct (map (\<lambda>r. (user_id r, query_hash r)) (cache_entries s))"
      by (simp add: store_ok_def)
    from get_exact_match_None_no_rows [OF None assms(3) this]
    have nr: "(uid, ?qh) \<notin> set (map (\<lambda>r. (user_id r, query_hash r)) (cache_entries s))" .
    show ?thesis
    proof (cases "get_semantic_matches env (dumps_messages False (messages request)) uid 0.85")
      case Nil
      with None assms(4) have "on_miss env s request uid ?qh
              (dumps_messages False (messages request)) = (r, s')"
        by (simp add: chat_completions_def Let_def)
      from store_ok_on_miss [OF assms(1,2) nr this] show ?thesis .
    next
      case (Cons b bs)
      with None assms(4) store_ok_hit [OF assms(1,2)] show ?thesis
        by (auto simp: chat_completions_def Let_def)
    qed
  qed
qed

end
